theory Spec2Isabelle
  imports Complex_Main "HOL-Library.Log_Nat"
begin

chapter \<open>The live visual editing engine of PRISM\<close>

text \<open>
  A shallow embedding of the selection, inline-edit, property-inspection and edit-ledger
  code of \<^verbatim>\<open>src/App.tsx\<close> (and of the second copy of that file in the repository, which
  holds \<^verbatim>\<open>applyStyleEdits\<close>). JavaScript strings are modelled as \<^typ>\<open>string\<close>, that is
  with the characters below \<^verbatim>\<open>U+0100\<close>; the one place where the code looks at Unicode code
  points (the text-node filter) uses lists of code points instead. Browser interfaces the
  code calls but does not define (\<^verbatim>\<open>querySelectorAll\<close>, the CSS parser behind
  \<^verbatim>\<open>style.setProperty\<close>, \<^verbatim>\<open>Date.now\<close>, the rendering of a floating-point number as
  text) are parameters of the functions that call them.
\<close>

section \<open>Definitions\<close>

subsection \<open>JavaScript string primitives\<close>

text \<open>The white space \<^verbatim>\<open>String.prototype.trim\<close> removes, among the characters a
  \<^typ>\<open>string\<close> can hold: tab, line feed, vertical tab, form feed, carriage return, space
  and the no-break space \<^verbatim>\<open>U+00A0\<close>.\<close>

definition is_space :: "char \<Rightarrow> bool" where
  "is_space c =
     (c \<in> set [CHR 0x09, CHR 0x0A, CHR 0x0B, CHR 0x0C, CHR 0x0D, CHR '' '', CHR 0xA0])"

definition trim :: "string \<Rightarrow> string" where
  "trim s = rev (dropWhile is_space (rev (dropWhile is_space s)))"

text \<open>\<^verbatim>\<open>s.split(' ')\<close>: every single space separates, so two spaces in a row give an
  empty token, and the empty string gives one empty token.\<close>

fun split_sp :: "string \<Rightarrow> string list" where
  "split_sp [] = [[]]"
| "split_sp (c # cs) =
     (if c = CHR '' '' then [] # split_sp cs
      else (case split_sp cs of [] \<Rightarrow> [[c]] | t # ts \<Rightarrow> (c # t) # ts))"

text \<open>\<^verbatim>\<open>xs.join(sep)\<close>.\<close>

fun join :: "string \<Rightarrow> string list \<Rightarrow> string" where
  "join sep [] = []"
| "join sep [x] = x"
| "join sep (x # y # ys) = x @ sep @ join sep (y # ys)"

text \<open>\<^verbatim>\<open>toLowerCase\<close> on the letters A to Z.\<close>

definition lower_char :: "char \<Rightarrow> char" where
  "lower_char c =
     (case map_of (zip ''ABCDEFGHIJKLMNOPQRSTUVWXYZ'' ''abcdefghijklmnopqrstuvwxyz'') c of
        None \<Rightarrow> c
      | Some l \<Rightarrow> l)"

definition toLowerCase :: "string \<Rightarrow> string" where
  "toLowerCase s = map lower_char s"

text \<open>The decimal text of a natural number, as a template literal prints it;
  \<open>digit_char\<close> is only applied to a digit below ten.\<close>

definition digit_char :: "nat \<Rightarrow> char" where
  "digit_char n = ''0123456789'' ! n"

fun nat_str :: "nat \<Rightarrow> string" where
  "nat_str n = (if n < 10 then [digit_char n] else nat_str (n div 10) @ [digit_char (n mod 10)])"

declare nat_str.simps [simp del]

text \<open>\<^verbatim>\<open>xs.indexOf(x)\<close>: the first position of \<open>x\<close>, or \<open>-1\<close>.\<close>

fun indexOf :: "'a list \<Rightarrow> 'a \<Rightarrow> int" where
  "indexOf [] x = - 1"
| "indexOf (y # ys) x =
     (if y = x then 0 else (let i = indexOf ys x in if i < 0 then - 1 else i + 1))"

text \<open>The text a template literal gives an integer: \<^verbatim>\<open>`${index + 1}`\<close>.\<close>

definition int_str :: "int \<Rightarrow> string" where
  "int_str i = (if i < 0 then CHR ''-'' # nat_str (nat (- i)) else nat_str (nat i))"

subsection \<open>JavaScript numbers\<close>

text \<open>
  A finite number of JavaScript is an IEEE 754 double; here it is the rational it denotes.
  \<open>round_double x\<close> is the double nearest to \<open>x\<close>, a tie going to the even significand:
  the result of every arithmetic operation is the rounded exact result. A double is
  \<open>m * 2 ^ e\<close> with \<open>m\<close> below \<open>2 ^ 53\<close> and \<open>e\<close> at least \<open>-1074\<close>; overflow does not
  arise from the quotients and products below, which are at most 100.
\<close>

definition pow2 :: "int \<Rightarrow> rat" where
  "pow2 e = (if e \<ge> 0 then of_int (2 ^ nat e) else 1 / of_int (2 ^ nat (- e)))"

text \<open>The integer part of the binary logarithm of a positive rational.\<close>

definition floor_log2 :: "rat \<Rightarrow> int" where
  "floor_log2 x =
     (case quotient_of x of (a, b) \<Rightarrow>
        (let e = bitlen a - bitlen b
         in if pow2 e \<le> x then e else e - 1))"

definition round_half_even :: "rat \<Rightarrow> int" where
  "round_half_even q =
     (let f = \<lfloor>q\<rfloor>; r = q - of_int f
      in if r < 1 / 2 then f else if r > 1 / 2 then f + 1 else if even f then f else f + 1)"

definition round_double :: "rat \<Rightarrow> rat" where
  "round_double x =
     (if x = 0 then 0
      else (let a = \<bar>x\<bar>;
                e = max (floor_log2 a - 52) (- 1074);
                m = round_half_even (a / pow2 e)
            in sgn x * of_int m * pow2 e))"

subsection \<open>The rendered tree\<close>

text \<open>
  Nodes are objects with identity: a node is a reference into a store, and the store gives
  each reference its fields. \<open>className\<close> is what the property \<^verbatim>\<open>className\<close> returns: a
  string on an HTML element, an \<^verbatim>\<open>SVGAnimatedString\<close> object on an SVG element (an
  object is truthy, is not of type \<^verbatim>\<open>string\<close> and has no method \<^verbatim>\<open>split\<close>); both
  carry the text of the \<^verbatim>\<open>class\<close> attribute. \<open>isHTMLElement\<close> is the outcome of
  \<^verbatim>\<open>element instanceof HTMLElement\<close> (false for SVG and MathML elements).
  \<open>style\<close> is the inline declaration block, a property name mapped to its value and
  whether the priority is \<^verbatim>\<open>important\<close>. \<open>attributes\<close> holds the other attributes of
  the element. \<open>textContent\<close> is the text directly in the node; the code reads it from nodes
  without child elements only.
\<close>

type_synonym ref = nat

datatype class_value = ClassString string | SVGAnimatedString string

record element =
  tagName :: string
  elem_id :: string
  className :: class_value
  isHTMLElement :: bool
  parentElement :: "ref option"
  children :: "ref list"
  textContent :: string
  style :: "string \<rightharpoonup> (string \<times> bool)"
  attributes :: "string \<rightharpoonup> string"

type_synonym tree = "ref \<Rightarrow> element"

text \<open>The text of the \<^verbatim>\<open>class\<close> attribute.\<close>

definition class_attribute :: "element \<Rightarrow> string" where
  "class_attribute e = (case className e of ClassString s \<Rightarrow> s | SVGAnimatedString s \<Rightarrow> s)"

text \<open>The element \<^verbatim>\<open>document.createElement('div')\<close> returns: a division without id, class,
  parent, children, text or style.\<close>

definition blank :: element where
  "blank = \<lparr>tagName = ''DIV'', elem_id = [], className = ClassString [], isHTMLElement = True,
             parentElement = None, children = [], textContent = [], style = Map.empty,
             attributes = Map.empty\<rparr>"

text \<open>
  \<^verbatim>\<open>style.setProperty(p, v, priority)\<close>, as the CSS object model defines it. The name of
  a property that is not a custom property (\<^verbatim>\<open>--name\<close>) is put in lower case. The empty
  value removes the declaration. Any other value is handed to the browser's parser:
  \<open>css name v\<close> says that the browser supports the property \<open>name\<close> and that \<open>v\<close> parses as a
  value of it, and a value that does not parse leaves the declaration block as it is. The
  parser is a parameter. (A name the browser does not support is never in a declaration
  block, so that removing it changes nothing.) An accepted value is kept as the text that
  was passed; a shorthand is kept under its own name. Assigning \<^verbatim>\<open>style.fontSize = v\<close> is
  \<^verbatim>\<open>setProperty('font-size', v)\<close> without priority.
\<close>

definition css_name :: "string \<Rightarrow> string" where
  "css_name p = (if take 2 p = ''--'' then p else toLowerCase p)"

definition setProperty ::
  "(string \<Rightarrow> string \<Rightarrow> bool) \<Rightarrow> string \<Rightarrow> string \<Rightarrow> bool \<Rightarrow> element \<Rightarrow> element" where
  "setProperty css p v important e =
     (if v = [] then e\<lparr>style := (style e)(css_name p := None)\<rparr>
      else if css (css_name p) v then e\<lparr>style := (style e)(css_name p \<mapsto> (v, important))\<rparr>
      else e)"

text \<open>
  \<^verbatim>\<open>node.textContent = v\<close>: every child of the node is removed from it, so that each
  former child has no parent any more, and the text of the node becomes \<open>v\<close>.
\<close>

definition detach :: "ref list \<Rightarrow> tree \<Rightarrow> tree" where
  "detach rs d = (\<lambda>x. if x \<in> set rs then (d x)\<lparr>parentElement := None\<rparr> else d x)"

definition setTextContent :: "string \<Rightarrow> ref \<Rightarrow> tree \<Rightarrow> tree" where
  "setTextContent v r d =
     (let d1 = detach (children (d r)) d
      in d1(r := (d1 r)\<lparr>textContent := v, children := []\<rparr>))"

subsection \<open>Errors\<close>

text \<open>
  A call of the code that ends in an uncaught exception is \<open>Throws\<close>, with the state the
  exception leaves behind. \<^verbatim>\<open>SyntaxError\<close> is what \<^verbatim>\<open>querySelectorAll\<close> throws for
  a selector it cannot parse, \<^verbatim>\<open>TypeError\<close> what calling a method that an object does
  not have throws.
\<close>

datatype error = SyntaxError | TypeError

datatype 'a outcome = Returns 'a | Throws error 'a

subsection \<open>Selector codec\<close>

text \<open>
  \<^verbatim>\<open>getElementSelector\<close> (used when a node is selected): the class branch is taken
  when \<^verbatim>\<open>className\<close> is truthy and of type \<^verbatim>\<open>string\<close>, that is a string that is not
  empty.
\<close>

definition getElementSelector :: "element \<Rightarrow> string" where
  "getElementSelector element =
     (if elem_id element \<noteq> [] then ''#'' @ elem_id element
      else (case className element of
              ClassString s \<Rightarrow>
                (if s \<noteq> [] then
                   ''.'' @ (case split_sp s of [] \<Rightarrow> ''undefined'' | t # _ \<Rightarrow> t)
                 else toLowerCase (tagName element))
            | SVGAnimatedString _ \<Rightarrow> toLowerCase (tagName element)))"

text \<open>
  \<^verbatim>\<open>generateSelectorForElement\<close> (used when an edit is recorded): all class tokens that
  are not blank, joined by dots; without classes the tag and the position among the
  parent's children of the same tag. The class branch tests \<^verbatim>\<open>className\<close> for truth
  only and then calls \<^verbatim>\<open>className.split\<close>, which is not there on an
  \<^verbatim>\<open>SVGAnimatedString\<close>.
\<close>

definition class_tokens :: "string \<Rightarrow> string list" where
  "class_tokens s = filter (\<lambda>c. trim c \<noteq> []) (split_sp s)"

definition positional_selector :: "tree \<Rightarrow> ref \<Rightarrow> string" where
  "positional_selector d r =
     (let element = d r
      in case parentElement element of
           Some parent \<Rightarrow>
             (let siblings = filter (\<lambda>child. tagName (d child) = tagName element)
                               (children (d parent));
                  index = indexOf siblings r
              in toLowerCase (tagName element) @ '':nth-of-type('' @ int_str (index + 1) @ '')'')
         | None \<Rightarrow> toLowerCase (tagName element))"

definition generateSelectorForElement :: "tree \<Rightarrow> ref \<Rightarrow> error + string" where
  "generateSelectorForElement d r =
     (let element = d r
      in if elem_id element \<noteq> [] then Inr (''#'' @ elem_id element)
         else (case className element of
                 SVGAnimatedString _ \<Rightarrow> Inl TypeError
               | ClassString s \<Rightarrow>
                   (let classes = join ''.'' (class_tokens s)
                    in if s \<noteq> [] \<and> classes \<noteq> [] then Inr (''.'' @ classes)
                       else Inr (positional_selector d r))))"

subsection \<open>Style edits\<close>

record StyleEdit =
  selector :: string
  property :: string
  edit_value :: string
  timestamp :: nat

text \<open>The step both \<^verbatim>\<open>addStyleEdit\<close> functions perform on the list of edits: drop the
  entries of the same selector and property, append the new one.\<close>

definition put_edit :: "StyleEdit list \<Rightarrow> StyleEdit \<Rightarrow> StyleEdit list" where
  "put_edit edits newEdit =
     filter (\<lambda>e. \<not> (selector e = selector newEdit \<and> property e = property newEdit)) edits
       @ [newEdit]"

subsection \<open>Projects and the browser's store\<close>

record SavedDesign =
  design_id :: string
  prompt :: string
  code :: string
  design_timestamp :: nat
  thumbnail :: "string option"
  edits :: "StyleEdit list option"

text \<open>\<^verbatim>\<open>!currentProject?.id\<close>: there is no project, or its id is the empty string.\<close>

definition no_project_id :: "SavedDesign option \<Rightarrow> bool" where
  "no_project_id currentProject =
     (case currentProject of None \<Rightarrow> True | Some p \<Rightarrow> design_id p = [])"

text \<open>
  \<^verbatim>\<open>querySelectorAll\<close> belongs to the browser: it is a parameter, a function of the
  current tree, the node it is called on and the selector text, which either throws a
  \<^verbatim>\<open>SyntaxError\<close> (a selector the engine rejects) or returns the list of matches.
\<close>

type_synonym query = "tree \<Rightarrow> ref \<Rightarrow> string \<Rightarrow> error + ref list"

type_synonym parser = "string \<Rightarrow> string \<Rightarrow> bool"

subsection \<open>The edit ledger of LivePreview\<close>

text \<open>
  The state \<^verbatim>\<open>LivePreview\<close> works on: the rendered tree, the content wrapper
  (\<^verbatim>\<open>querySelector('[data-step1-content]')\<close>, absent before the content is loaded), and
  \<^verbatim>\<open>localStorage\<close>, whose items under the \<^verbatim>\<open>edits-\<close> keys are lists of edits written
  by \<^verbatim>\<open>JSON.stringify\<close> and read back by \<^verbatim>\<open>JSON.parse\<close>.
\<close>

record preview =
  nodes :: tree
  contentWrapper :: "ref option"
  localStorage :: "string \<rightharpoonup> StyleEdit list"

text \<open>The body of the \<^verbatim>\<open>forEach\<close> over the matches: only an \<^verbatim>\<open>HTMLElement\<close> is
  touched.\<close>

definition apply_to_element :: "parser \<Rightarrow> string \<Rightarrow> string \<Rightarrow> tree \<Rightarrow> ref \<Rightarrow> tree" where
  "apply_to_element css prop v d r =
     (if isHTMLElement (d r) then
        (if prop = ''textContent'' then setTextContent v r d
         else d(r := setProperty css prop v True (d r)))
      else d)"

text \<open>\<^verbatim>\<open>addStyleEdit\<close> of \<^verbatim>\<open>LivePreview\<close>; \<open>now\<close> is \<^verbatim>\<open>Date.now()\<close>.\<close>

definition addStyleEdit_LivePreview ::
  "parser \<Rightarrow> query \<Rightarrow> nat \<Rightarrow> SavedDesign option \<Rightarrow> string \<Rightarrow> string \<Rightarrow> string \<Rightarrow>
   preview \<Rightarrow> preview outcome"
where
  "addStyleEdit_LivePreview css qsa now currentProject sel prop v st =
     (if no_project_id currentProject then Returns st
      else
        (let key = ''edits-'' @ design_id (the currentProject);
             existing = (case localStorage st key of None \<Rightarrow> [] | Some es \<Rightarrow> es);
             updated = put_edit existing
                         \<lparr>selector = sel, property = prop, edit_value = v, timestamp = now\<rparr>;
             st1 = st\<lparr>localStorage := (localStorage st)(key \<mapsto> updated)\<rparr>
         in case contentWrapper st1 of
              None \<Rightarrow> Returns st1
            | Some w \<Rightarrow>
                (case qsa (nodes st1) w sel of
                   Inl err \<Rightarrow> Throws err st1
                 | Inr elements \<Rightarrow>
                     Returns (st1\<lparr>nodes := foldl (apply_to_element css prop v) (nodes st1) elements\<rparr>))))"

text \<open>The replay effect of \<^verbatim>\<open>LivePreview\<close>: the loop over the saved edits. It has no
  \<^verbatim>\<open>try\<close>, so a selector that throws ends the loop.\<close>

fun replay_edits :: "parser \<Rightarrow> query \<Rightarrow> ref \<Rightarrow> StyleEdit list \<Rightarrow> tree \<Rightarrow> tree outcome" where
  "replay_edits css qsa w [] d = Returns d"
| "replay_edits css qsa w (edit # rest) d =
     (case qsa d w (selector edit) of
        Inl err \<Rightarrow> Throws err d
      | Inr elements \<Rightarrow>
          replay_edits css qsa w rest
            (foldl (apply_to_element css (property edit) (edit_value edit)) d elements))"

definition replay_LivePreview ::
  "parser \<Rightarrow> query \<Rightarrow> SavedDesign option \<Rightarrow> preview \<Rightarrow> preview outcome" where
  "replay_LivePreview css qsa currentProject st =
     (if no_project_id currentProject then Returns st
      else
        (case localStorage st (''edits-'' @ design_id (the currentProject)) of
           None \<Rightarrow> Returns st
         | Some saved \<Rightarrow>
             (case contentWrapper st of
                None \<Rightarrow> Returns st
              | Some w \<Rightarrow>
                  (case replay_edits css qsa w saved (nodes st) of
                     Returns d \<Rightarrow> Returns (st\<lparr>nodes := d\<rparr>)
                   | Throws err d \<Rightarrow> Throws err (st\<lparr>nodes := d\<rparr>)))))"

subsection \<open>Replay with the applying flag: applyStyleEdits\<close>

text \<open>
  \<open>container\<close> is \<^verbatim>\<open>containerElement.closest('[data-prism-preview-container]')\<close>, the
  same node each time the function asks for it. The loop carries the keys of the edits
  already applied; a selector that throws is caught and the edit is passed over.
  \<^verbatim>\<open>!edits || edits.length === 0\<close> is the test for the empty list.
\<close>

definition set_applying :: "ref option \<Rightarrow> tree \<Rightarrow> tree" where
  "set_applying container d =
     (case container of
        None \<Rightarrow> d
      | Some c \<Rightarrow> d(c := (d c)\<lparr>attributes := (attributes (d c))(''data-applying-edits'' \<mapsto> ''true'')\<rparr>))"

definition clear_applying :: "ref option \<Rightarrow> tree \<Rightarrow> tree" where
  "clear_applying container d =
     (case container of
        None \<Rightarrow> d
      | Some c \<Rightarrow> d(c := (d c)\<lparr>attributes := (attributes (d c))(''data-applying-edits'' := None)\<rparr>))"

definition editKey :: "StyleEdit \<Rightarrow> string" where
  "editKey edit = selector edit @ ''-'' @ property edit @ ''-'' @ edit_value edit"

definition apply_saved_edit :: "parser \<Rightarrow> ref option \<Rightarrow> StyleEdit \<Rightarrow> tree \<Rightarrow> ref \<Rightarrow> tree" where
  "apply_saved_edit css container edit d r =
     (if isHTMLElement (d r) then
        (if property edit = ''textContent'' then setTextContent (edit_value edit) r d
         else if property edit = ''pageBackground'' then
           (let d1 = (case container of
                        None \<Rightarrow> d
                      | Some c \<Rightarrow> d(c := setProperty css ''background'' (edit_value edit) True (d c)))
            in d1(r := setProperty css ''background'' (edit_value edit) True (d1 r)))
         else d(r := setProperty css (property edit) (edit_value edit) True (d r)))
      else d)"

text \<open>One round of the \<^verbatim>\<open>forEach\<close> over the edits, on the set of applied keys and the
  tree.\<close>

definition apply_step ::
  "parser \<Rightarrow> query \<Rightarrow> ref option \<Rightarrow> ref \<Rightarrow> string list \<times> tree \<Rightarrow> StyleEdit \<Rightarrow>
   string list \<times> tree" where
  "apply_step css qsa container containerElement s edit =
     (case s of (appliedEdits, d) \<Rightarrow>
        if editKey edit \<in> set appliedEdits then (appliedEdits, d)
        else
          (case qsa d containerElement (selector edit) of
             Inl err \<Rightarrow> (appliedEdits, d)
           | Inr elements \<Rightarrow>
               (editKey edit # appliedEdits,
                foldl (apply_saved_edit css container edit) d elements)))"

definition applyStyleEdits ::
  "parser \<Rightarrow> query \<Rightarrow> ref option \<Rightarrow> ref \<Rightarrow> StyleEdit list \<Rightarrow> tree \<Rightarrow> tree" where
  "applyStyleEdits css qsa container containerElement es d =
     (if es = [] then d
      else clear_applying container
             (snd (foldl (apply_step css qsa container containerElement)
                     ([], set_applying container d) es)))"

subsection \<open>The edit ledger of App and its deferred save\<close>

text \<open>
  The state \<^verbatim>\<open>App\<close> works on: the ledger in \<^verbatim>\<open>currentProjectEditsRef\<close>, the two
  \<^verbatim>\<open>localStorage\<close> items the code reads (\<^verbatim>\<open>prism-saved-designs\<close> and
  \<^verbatim>\<open>prism-current-project\<close>), the timers that \<^verbatim>\<open>setTimeout\<close> has set and that have
  not fired yet (each with the project id its callback captured, oldest first), and the
  document: its tree and the list of its elements.
\<close>

record app =
  currentProjectEditsRef :: "StyleEdit list"
  saved_designs_item :: "SavedDesign list option"
  current_project_item :: "SavedDesign option"
  timers :: "string list"
  page :: tree
  document_elements :: "ref list"

text \<open>\<^verbatim>\<open>document.querySelector('[data-prism-preview-container][data-applying-edits]')\<close>
  finds a node.\<close>

definition applying_edits :: "app \<Rightarrow> bool" where
  "applying_edits st =
     (find (\<lambda>r. attributes (page st r) ''data-prism-preview-container'' \<noteq> None
               \<and> attributes (page st r) ''data-applying-edits'' \<noteq> None)
           (document_elements st) \<noteq> None)"

fun update_design :: "string \<Rightarrow> StyleEdit list \<Rightarrow> nat \<Rightarrow> SavedDesign list \<Rightarrow> SavedDesign list" where
  "update_design projectId es now [] = []"
| "update_design projectId es now (d # ds) =
     (if design_id d = projectId
      then d\<lparr>edits := Some es, design_timestamp := now\<rparr> # ds
      else d # update_design projectId es now ds)"

definition saveProjectWithEdits :: "nat \<Rightarrow> string \<Rightarrow> StyleEdit list \<Rightarrow> app \<Rightarrow> app" where
  "saveProjectWithEdits now projectId es st =
     (case saved_designs_item st of
        None \<Rightarrow> st
      | Some designs \<Rightarrow>
          (if \<exists>d \<in> set designs. design_id d = projectId
           then st\<lparr>saved_designs_item := Some (update_design projectId es now designs)\<rparr>
           else st))"

definition addStyleEdit_App ::
  "nat \<Rightarrow> SavedDesign option \<Rightarrow> string \<Rightarrow> string \<Rightarrow> string \<Rightarrow> app \<Rightarrow> app" where
  "addStyleEdit_App now currentProject sel prop v st =
     (let newEdit = \<lparr>selector = sel, property = prop, edit_value = v, timestamp = now\<rparr>;
          st1 = st\<lparr>currentProjectEditsRef := put_edit (currentProjectEditsRef st) newEdit\<rparr>;
          projectId = (if no_project_id currentProject
                       then (case current_project_item st1 of
                               None \<Rightarrow> []
                             | Some project \<Rightarrow> design_id project)
                       else design_id (the currentProject))
      in if projectId \<noteq> [] then st1\<lparr>timers := timers st1 @ [projectId]\<rparr> else st1)"

text \<open>The callback of the timer: it reads the flag and the ledger when it runs.\<close>

definition deferred_save :: "nat \<Rightarrow> string \<Rightarrow> app \<Rightarrow> app" where
  "deferred_save now projectId st =
     (if \<not> applying_edits st
      then saveProjectWithEdits now projectId (currentProjectEditsRef st) st
      else st)"

text \<open>The oldest pending timer fires.\<close>

definition fire_timer :: "nat \<Rightarrow> app \<Rightarrow> app" where
  "fire_timer now st =
     (case timers st of
        [] \<Rightarrow> st
      | projectId # rest \<Rightarrow> deferred_save now projectId (st\<lparr>timers := rest\<rparr>))"

text \<open>
  A session of the editor is a sequence of events, each of which runs to its end before
  the next one starts (the code has no \<^verbatim>\<open>await\<close> in any of them): a call of
  \<^verbatim>\<open>addStyleEdit\<close> with its clock value, the current project of the render in which it
  runs and its three arguments; the firing of the oldest pending timer; and a call of
  \<^verbatim>\<open>applyStyleEdits\<close> on the document, with the selector engine of that moment, the
  surface \<^verbatim>\<open>closest\<close> finds, the node it is called on and the edits to replay.
\<close>

datatype event =
    Record nat "SavedDesign option" string string string
  | TimerFires nat
  | Replay query "ref option" ref "StyleEdit list"

fun step :: "parser \<Rightarrow> app \<Rightarrow> event \<Rightarrow> app" where
  "step css st (Record now currentProject sel prop v) =
     addStyleEdit_App now currentProject sel prop v st"
| "step css st (TimerFires now) = fire_timer now st"
| "step css st (Replay qsa container containerElement es) =
     st\<lparr>page := applyStyleEdits css qsa container containerElement es (page st)\<rparr>"

definition run :: "parser \<Rightarrow> event list \<Rightarrow> app \<Rightarrow> app" where
  "run css events st = foldl (step css) st events"

text \<open>No node carries the attribute \<^verbatim>\<open>data-applying-edits\<close>: the state of a document
  outside a call of \<^verbatim>\<open>applyStyleEdits\<close>.\<close>

definition flag_free :: "app \<Rightarrow> bool" where
  "flag_free st = (\<forall>r. attributes (page st r) ''data-applying-edits'' = None)"

subsection \<open>Reading a ledger, and concrete inputs\<close>

text \<open>The entries of a ledger for one selector and property.\<close>

definition entries_for :: "string \<Rightarrow> string \<Rightarrow> StyleEdit list \<Rightarrow> StyleEdit list" where
  "entries_for sel prop es = filter (\<lambda>e. selector e = sel \<and> property e = prop) es"

text \<open>A sequence of calls of \<^verbatim>\<open>addStyleEdit\<close> of \<^verbatim>\<open>App\<close>, each with its clock value, the
  current project of the render in which it runs, and its three arguments.\<close>

fun record_all :: "(nat \<times> SavedDesign option \<times> string \<times> string \<times> string) list \<Rightarrow> app \<Rightarrow> app" where
  "record_all [] st = st"
| "record_all ((now, currentProject, sel, prop, v) # calls) st =
     record_all calls (addStyleEdit_App now currentProject sel prop v st)"

definition state_of :: "'a outcome \<Rightarrow> 'a" where
  "state_of out = (case out of Returns s \<Rightarrow> s | Throws err s \<Rightarrow> s)"

text \<open>A sequence of calls of \<^verbatim>\<open>addStyleEdit\<close> of \<^verbatim>\<open>LivePreview\<close> in one project; a call
  that ends in an exception leaves its state to the next call.\<close>

fun record_all_LivePreview ::
  "parser \<Rightarrow> query \<Rightarrow> SavedDesign option \<Rightarrow> (nat \<times> string \<times> string \<times> string) list \<Rightarrow>
   preview \<Rightarrow> preview" where
  "record_all_LivePreview css qsa currentProject [] st = st"
| "record_all_LivePreview css qsa currentProject ((now, sel, prop, v) # calls) st =
     record_all_LivePreview css qsa currentProject calls
       (state_of (addStyleEdit_LivePreview css qsa now currentProject sel prop v st))"

text \<open>The ledger \<^verbatim>\<open>LivePreview\<close> keeps for a project: the item \<^verbatim>\<open>edits-<id>\<close>, or the
  empty list when the item is absent.\<close>

definition stored_edits :: "string \<Rightarrow> preview \<Rightarrow> StyleEdit list" where
  "stored_edits projectId st =
     (case localStorage st (''edits-'' @ projectId) of None \<Rightarrow> [] | Some es \<Rightarrow> es)"

definition app0 :: app where
  "app0 = \<lparr>currentProjectEditsRef = [], saved_designs_item = None, current_project_item = None,
            timers = [], page = (\<lambda>_. blank), document_elements = []\<rparr>"

definition preview0 :: preview where
  "preview0 = \<lparr>nodes = (\<lambda>_. blank), contentWrapper = None, localStorage = Map.empty\<rparr>"

definition project :: "string \<Rightarrow> SavedDesign" where
  "project i = \<lparr>design_id = i, prompt = [], code = [], design_timestamp = 0,
                 thumbnail = None, edits = None\<rparr>"

text \<open>A parser that accepts every value, and one that accepts the values without a brace
  (no value of CSS holds one outside a string).\<close>

definition any_css :: parser where
  "any_css p v = True"

definition no_brace_css :: parser where
  "no_brace_css p v = (CHR ''{'' \<notin> set v)"

text \<open>A surface with an inline SVG icon (node 1), a division (node 2) and a span (node 3),
  all of class \<open>icon\<close>, under the content wrapper (node 0).\<close>

definition icon_tree :: tree where
  "icon_tree = (\<lambda>_. blank)
     (0 := blank\<lparr>children := [1, 2, 3]\<rparr>,
      1 := blank\<lparr>tagName := ''svg'', className := SVGAnimatedString ''icon'',
                 isHTMLElement := False, parentElement := Some 0\<rparr>,
      2 := blank\<lparr>className := ClassString ''icon'', parentElement := Some 0\<rparr>,
      3 := blank\<lparr>tagName := ''SPAN'', className := ClassString ''icon'', parentElement := Some 0\<rparr>)"

text \<open>A selector engine for that surface: \<^verbatim>\<open>.icon\<close> matches the three nodes, every
  other selector matches nothing. The second engine also rejects \<^verbatim>\<open>.md:flex\<close>, whose
  \<^verbatim>\<open>:flex\<close> is not a pseudo-class.\<close>

definition icon_query :: query where
  "icon_query d w s = (if s = ''.icon'' then Inr [1, 2, 3] else Inr [])"

definition strict_query :: query where
  "strict_query d w s = (if s = ''.md:flex'' then Inl SyntaxError else icon_query d w s)"

definition icon_preview :: preview where
  "icon_preview = \<lparr>nodes = icon_tree, contentWrapper = Some 0, localStorage = Map.empty\<rparr>"

text \<open>A card (node 1) that holds a title (node 2), under the content wrapper (node 0); the
  selector \<^verbatim>\<open>.card\<close> matches the card.\<close>

definition card_tree :: tree where
  "card_tree = (\<lambda>_. blank)
     (0 := blank\<lparr>children := [1]\<rparr>,
      1 := blank\<lparr>className := ClassString ''card'', parentElement := Some 0, children := [2]\<rparr>,
      2 := blank\<lparr>tagName := ''H2'', textContent := ''Title'', parentElement := Some 1\<rparr>)"

definition card_query :: query where
  "card_query d w s = (if s = ''.card'' then Inr [1] else Inr [])"

definition card_preview :: preview where
  "card_preview = \<lparr>nodes = card_tree, contentWrapper = Some 0, localStorage = Map.empty\<rparr>"

text \<open>An edit with a given selector, property and value.\<close>

definition mk_edit :: "string \<Rightarrow> string \<Rightarrow> string \<Rightarrow> StyleEdit" where
  "mk_edit sel prop v = \<lparr>selector = sel, property = prop, edit_value = v, timestamp = 0\<rparr>"


text \<open>The children of the parent that have the tag of the node.\<close>

definition same_tag_siblings :: "tree \<Rightarrow> ref \<Rightarrow> ref \<Rightarrow> ref list" where
  "same_tag_siblings d parent r =
     filter (\<lambda>child. tagName (d child) = tagName (d r)) (children (d parent))"

text \<open>A heading with an id and two classes (node 1), three paragraphs, the first with
  two classes (node 2), and an inline SVG drawing of class \<open>logo\<close> (node 5), under a
  division (node 0).\<close>

definition page_tree :: tree where
  "page_tree = (\<lambda>_. blank)
     (0 := blank\<lparr>children := [1, 2, 3, 4, 5]\<rparr>,
      1 := blank\<lparr>tagName := ''H1'', elem_id := ''title'', className := ClassString ''hero big'',
                 parentElement := Some 0\<rparr>,
      2 := blank\<lparr>tagName := ''P'', className := ClassString ''btn primary'',
                 parentElement := Some 0\<rparr>,
      3 := blank\<lparr>tagName := ''P'', parentElement := Some 0\<rparr>,
      4 := blank\<lparr>tagName := ''P'', parentElement := Some 0\<rparr>,
      5 := blank\<lparr>tagName := ''svg'', className := SVGAnimatedString ''logo'',
                 isHTMLElement := False, parentElement := Some 0\<rparr>)"

text \<open>A session in which project \<open>p1\<close> is among the saved designs, the surface is node 0
  of the surface with the icons, and nothing is recorded or pending.\<close>

definition session0 :: app where
  "session0 =
     \<lparr>currentProjectEditsRef = [], saved_designs_item = Some [project ''p1''],
      current_project_item = Some (project ''p1''), timers = [],
      page = icon_tree(0 := (icon_tree 0)\<lparr>attributes := [''data-prism-preview-container'' \<mapsto> ''true'']\<rparr>),
      document_elements = [0, 1, 2, 3]\<rparr>"


subsection \<open>Inline text editor\<close>

text \<open>
  The workspace the inline editor runs in: the preview, the \<^verbatim>\<open>inlineEdit\<close> state of
  \<^verbatim>\<open>LivePreview\<close>, and the state of \<^verbatim>\<open>App\<close> with its ledger.
\<close>

record InlineEditState =
  ie_element :: ref
  originalText :: string
  isEditing :: bool

record workspace =
  live :: preview
  inlineEdit :: "InlineEditState option"
  app_state :: app

text \<open>\<^verbatim>\<open>parent.replaceChild(newChild, oldChild)\<close>.\<close>

definition replaceChild :: "ref \<Rightarrow> ref \<Rightarrow> ref \<Rightarrow> tree \<Rightarrow> tree" where
  "replaceChild parent newChild oldChild d =
     d(parent := (d parent)\<lparr>children :=
                    map (\<lambda>c. if c = oldChild then newChild else c) (children (d parent))\<rparr>,
       newChild := (d newChild)\<lparr>parentElement := Some parent\<rparr>,
       oldChild := (d oldChild)\<lparr>parentElement := None\<rparr>)"

text \<open>
  \<^verbatim>\<open>startInlineEdit\<close>. \<open>editor\<close> is the node \<^verbatim>\<open>document.createElement('div')\<close> returns
  and \<open>computedStyle\<close> is \<^verbatim>\<open>window.getComputedStyle(element)\<close>. The fourteen
  assignments to the style of the editor are made in the order of the list. Giving the
  editor the focus and selecting its text change nothing in this state.
\<close>

definition editor_declarations :: "(string \<Rightarrow> string) \<Rightarrow> (string \<times> string) list" where
  "editor_declarations computedStyle =
     [(''font-size'', computedStyle ''font-size''),
      (''font-weight'', computedStyle ''font-weight''),
      (''font-family'', computedStyle ''font-family''),
      (''color'', computedStyle ''color''),
      (''line-height'', computedStyle ''line-height''),
      (''text-align'', computedStyle ''text-align''),
      (''padding'', computedStyle ''padding''),
      (''margin'', computedStyle ''margin''),
      (''width'', ''100%''),
      (''min-height'', computedStyle ''height''),
      (''border'', ''2px solid #3B82F6''),
      (''border-radius'', ''4px''),
      (''outline'', ''none''),
      (''background'', ''rgba(59, 130, 246, 0.05)'')]"

definition new_editor :: "parser \<Rightarrow> (string \<Rightarrow> string) \<Rightarrow> string \<Rightarrow> element" where
  "new_editor css computedStyle original =
     foldl (\<lambda>e (p, v). setProperty css p v False e)
       (blank\<lparr>className := ClassString ''prism-inline-editor'',
               textContent := original,
               attributes := [''contenteditable'' \<mapsto> ''true'']\<rparr>)
       (editor_declarations computedStyle)"

definition startInlineEdit ::
  "parser \<Rightarrow> (string \<Rightarrow> string) \<Rightarrow> ref \<Rightarrow> ref \<Rightarrow> workspace \<Rightarrow> workspace" where
  "startInlineEdit css computedStyle editor element ws =
     (let d = nodes (live ws);
          original = textContent (d element);
          d1 = d(editor := new_editor css computedStyle original);
          d2 = (case parentElement (d1 element) of
                  None \<Rightarrow> d1
                | Some parent \<Rightarrow> replaceChild parent editor element d1)
      in ws\<lparr>inlineEdit := Some \<lparr>ie_element = element, originalText = original, isEditing = True\<rparr>,
            live := (live ws)\<lparr>nodes := d2\<rparr>\<rparr>)"

text \<open>\<^verbatim>\<open>finishEdit\<close>, the closure over \<open>editor\<close>, \<open>element\<close> and \<open>originalText\<close>.\<close>

definition finishEdit :: "ref \<Rightarrow> ref \<Rightarrow> string \<Rightarrow> bool \<Rightarrow> workspace \<Rightarrow> workspace" where
  "finishEdit editor element original save ws =
     (let d = nodes (live ws);
          d1 = (if save \<and> textContent (d editor) \<noteq> original
                then setTextContent (textContent (d editor)) element d
                else d);
          d2 = (case parentElement (d1 editor) of
                  None \<Rightarrow> d1
                | Some parent \<Rightarrow> replaceChild parent element editor d1)
      in ws\<lparr>inlineEdit := None, live := (live ws)\<lparr>nodes := d2\<rparr>\<rparr>)"

text \<open>The two listeners of the editor.\<close>

record KeyboardEvent =
  key :: string
  shiftKey :: bool
  ctrlKey :: bool
  altKey :: bool
  metaKey :: bool

definition on_blur :: "ref \<Rightarrow> ref \<Rightarrow> string \<Rightarrow> workspace \<Rightarrow> workspace" where
  "on_blur editor element original ws = finishEdit editor element original True ws"

definition on_keydown :: "ref \<Rightarrow> ref \<Rightarrow> string \<Rightarrow> KeyboardEvent \<Rightarrow> workspace \<Rightarrow> workspace" where
  "on_keydown editor element original e ws =
     (if key e = ''Enter'' \<and> \<not> shiftKey e then finishEdit editor element original True ws
      else if key e = ''Escape'' then finishEdit editor element original False ws
      else ws)"

text \<open>What the user types into the editor becomes its text.\<close>

definition type_text :: "ref \<Rightarrow> string \<Rightarrow> workspace \<Rightarrow> workspace" where
  "type_text editor s ws =
     ws\<lparr>live := (live ws)\<lparr>nodes := (nodes (live ws))(editor := (nodes (live ws) editor)\<lparr>textContent := s\<rparr>)\<rparr>\<rparr>"

text \<open>A paragraph with the text \<open>Hello\<close> (node 1) under the content wrapper (node 0), in a
  project whose ledgers are empty.\<close>

definition hello_workspace :: workspace where
  "hello_workspace =
     \<lparr>live = \<lparr>nodes = (\<lambda>_. blank)
                 (0 := blank\<lparr>children := [1]\<rparr>,
                  1 := blank\<lparr>tagName := ''P'', textContent := ''Hello'', parentElement := Some 0\<rparr>),
              contentWrapper = Some 0, localStorage = Map.empty\<rparr>,
      inlineEdit = None,
      app_state = app0\<rparr>"

subsection \<open>Property inspector: handlePropertyChange\<close>

text \<open>\<^verbatim>\<open>classList.contains\<close>: the class attribute is split at ASCII white space (tab, line
  feed, form feed, carriage return, space).\<close>

definition is_html_space :: "char \<Rightarrow> bool" where
  "is_html_space c = (c \<in> set [CHR 0x09, CHR 0x0A, CHR 0x0C, CHR 0x0D, CHR '' ''])"

fun split_ws :: "string \<Rightarrow> string list" where
  "split_ws [] = [[]]"
| "split_ws (c # cs) =
     (if is_html_space c then [] # split_ws cs
      else (case split_ws cs of [] \<Rightarrow> [[c]] | t # ts \<Rightarrow> (c # t) # ts))"

definition classList_contains :: "element \<Rightarrow> string \<Rightarrow> bool" where
  "classList_contains e token = (token \<noteq> [] \<and> token \<in> set (split_ws (class_attribute e)))"

text \<open>\<^verbatim>\<open>property.replace(/([A-Z])/g, '-$1').toLowerCase()\<close>.\<close>

definition cssProp_of :: "string \<Rightarrow> string" where
  "cssProp_of p =
     toLowerCase (concat (map (\<lambda>c. if c \<in> set ''ABCDEFGHIJKLMNOPQRSTUVWXYZ'' then [CHR ''-'', c] else [c]) p))"

text \<open>
  The position of a colour stop,
  \<^verbatim>\<open>colors.length > 1 ? (index / (colors.length - 1)) * 100 : 0\<close>: a division and a
  multiplication of doubles, each rounded. The index and the length of an array are below
  \<open>2 ^ 32\<close> and so are doubles as they stand.
\<close>

definition percentage :: "nat \<Rightarrow> nat \<Rightarrow> rat" where
  "percentage len index =
     (if len > 1
      then round_double (round_double (of_nat index / of_nat (len - 1)) * 100)
      else 0)"

text \<open>
  The gradient string. \<open>number_text x\<close> stands for the text a template literal gives the
  number \<open>x\<close> (the conversion \<^verbatim>\<open>Number::toString\<close> of the language); it is a parameter.
\<close>

definition percentage_text :: "(rat \<Rightarrow> string) \<Rightarrow> nat \<Rightarrow> nat \<Rightarrow> string" where
  "percentage_text number_text len index = number_text (percentage len index)"

definition colorStops :: "(rat \<Rightarrow> string) \<Rightarrow> string list \<Rightarrow> string list" where
  "colorStops number_text colors =
     map (\<lambda>(index, color). color @ '' '' @ percentage_text number_text (length colors) index @ ''%'')
         (enumerate 0 colors)"

definition newGradient :: "(rat \<Rightarrow> string) \<Rightarrow> string list \<Rightarrow> string" where
  "newGradient number_text colors =
     ''linear-gradient(135deg, '' @ join '', '' (colorStops number_text colors) @ '')''"

text \<open>The five declarations and the custom property the gradient branch writes on the
  node.\<close>

definition apply_gradient :: "parser \<Rightarrow> string \<Rightarrow> element \<Rightarrow> element" where
  "apply_gradient css g e =
     (setProperty css ''--original-background'' g False
       (setProperty css ''color'' ''transparent'' True
         (setProperty css ''-webkit-text-fill-color'' ''transparent'' True
           (setProperty css ''-webkit-background-clip'' ''text'' True
             (setProperty css ''background-clip'' ''text'' True
               (setProperty css ''background'' g True e))))))"

text \<open>
  \<^verbatim>\<open>handlePropertyChange\<close> of the properties panel, on the state of \<^verbatim>\<open>App\<close> (the
  \<^verbatim>\<open>addStyleEdit\<close> it is given is the one of \<^verbatim>\<open>App\<close>). It is called with the name of
  the field that was edited; the panel shows its colour editor, solid or gradient, for every
  field whose name contains \<^verbatim>\<open>color\<close>, so for \<^verbatim>\<open>color\<close> and for
  \<^verbatim>\<open>backgroundColor\<close>, and the gradient editor passes the gradient as JSON text.
  \<open>parse_gradient value\<close> is the list of colours when \<^verbatim>\<open>JSON.parse(value)\<close> gives an
  object of type \<^verbatim>\<open>gradient\<close> with an array of colours, and \<open>None\<close> when the parse
  throws or gives anything else; \<open>container\<close> is
  \<^verbatim>\<open>element.closest('[data-prism-preview-container]')\<close>; the two flags say whether the
  optional properties \<^verbatim>\<open>addStyleEdit\<close> and \<^verbatim>\<open>generateSelectorForElement\<close> were passed
  to the panel. The selector is computed first: when that throws, nothing else has been
  done. The update of the panel's own display state is not part of this state.
\<close>

definition record_if ::
  "bool \<Rightarrow> nat \<Rightarrow> SavedDesign option \<Rightarrow> string \<Rightarrow> string \<Rightarrow> string \<Rightarrow> app \<Rightarrow> app" where
  "record_if has_addStyleEdit now currentProject sel prop v st =
     (if has_addStyleEdit \<and> sel \<noteq> [] then addStyleEdit_App now currentProject sel prop v st else st)"

text \<open>The branches of \<^verbatim>\<open>handlePropertyChange\<close>, once the selector \<open>sel\<close> is there.\<close>

definition change_property ::
  "parser \<Rightarrow> (rat \<Rightarrow> string) \<Rightarrow> (string \<Rightarrow> string list option) \<Rightarrow> nat \<Rightarrow> SavedDesign option \<Rightarrow>
   bool \<Rightarrow> ref option \<Rightarrow> ref \<Rightarrow> string \<Rightarrow> string \<Rightarrow> string \<Rightarrow> app \<Rightarrow> app" where
  "change_property css number_text parse_gradient now currentProject
       has_addStyleEdit container element sel prop v st =
     (let d = page st
      in
      if prop = ''textContent'' then
        record_if has_addStyleEdit now currentProject sel prop v
          (st\<lparr>page := setTextContent v element d\<rparr>)
      else if prop = ''pageBackground'' then
        (let d1 = (case container of
                     None \<Rightarrow> d
                   | Some c \<Rightarrow> d(c := setProperty css ''background'' v True
                                         (setProperty css ''background-color'' v True (d c))));
             tag = toLowerCase (tagName (d1 element));
             hasPageLevelClass = (classList_contains (d1 element) ''hero''
                                  \<or> classList_contains (d1 element) ''main''
                                  \<or> classList_contains (d1 element) ''container'');
             isPageLevel = (tag = ''body'' \<or> tag = ''main'' \<or> hasPageLevelClass
                            \<or> (tag = ''section''
                                \<and> (case parentElement (d1 element) of
                                      None \<Rightarrow> False
                                    | Some p \<Rightarrow> toLowerCase (tagName (d1 p)) = ''body'')));
             d2 = (if isPageLevel
                   then d1(element := setProperty css ''background'' v True
                                        (setProperty css ''background-color'' v True (d1 element)))
                   else d1)
         in record_if has_addStyleEdit now currentProject sel prop v (st\<lparr>page := d2\<rparr>))
      else if prop = ''color'' \<and> parse_gradient v \<noteq> None then
        (let g = newGradient number_text (the (parse_gradient v))
         in record_if has_addStyleEdit now currentProject sel ''background'' g
              (st\<lparr>page := d(element := apply_gradient css g (d element))\<rparr>))
      else
        record_if has_addStyleEdit now currentProject sel (cssProp_of prop) v
          (st\<lparr>page := d(element := setProperty css (cssProp_of prop) v True (d element))\<rparr>))"

definition handlePropertyChange ::
  "parser \<Rightarrow> (rat \<Rightarrow> string) \<Rightarrow> (string \<Rightarrow> string list option) \<Rightarrow> nat \<Rightarrow> SavedDesign option \<Rightarrow>
   bool \<Rightarrow> bool \<Rightarrow> ref option \<Rightarrow> ref option \<Rightarrow> string \<Rightarrow> string \<Rightarrow> app \<Rightarrow> app outcome" where
  "handlePropertyChange css number_text parse_gradient now currentProject
       has_addStyleEdit has_generateSelector container selectedElement prop v st =
     (case selectedElement of
        None \<Rightarrow> Returns st
      | Some element \<Rightarrow>
          (case (if has_generateSelector then generateSelectorForElement (page st) element
                 else Inr []) of
             Inl err \<Rightarrow> Throws err st
           | Inr sel \<Rightarrow>
               Returns (change_property css number_text parse_gradient now currentProject
                          has_addStyleEdit container element sel prop v st)))"

text \<open>The texts JavaScript gives the seven doubles that are the positions of the stops of
  up to five colours; empty for every other number.\<close>

definition percent_upto5 :: "rat \<Rightarrow> string" where
  "percent_upto5 x =
     (if x = 0 then ''0''
      else if x = 25 then ''25''
      else if x = 50 then ''50''
      else if x = 75 then ''75''
      else if x = 100 then ''100''
      else if x = 2345624805922133 / 70368744177664 then ''33.33333333333333''
      else if x = 2345624805922133 / 35184372088832 then ''66.66666666666666''
      else [])"

text \<open>A heading with gradient text (node 1) under the surface (node 0), in a session with
  an empty ledger; and a parser for the values the examples pass.\<close>

definition gradient_app :: app where
  "gradient_app = app0\<lparr>page := (\<lambda>_. blank)
     (0 := blank\<lparr>children := [1]\<rparr>,
      1 := blank\<lparr>tagName := ''H1'', className := ClassString ''hero-title'',
                 parentElement := Some 0\<rparr>)\<rparr>"

definition parse_example :: "string \<Rightarrow> string list option" where
  "parse_example v =
     (if v = ''{\"type\":\"gradient\",\"colors\":[\"rgb(102,126,234)\",\"#ffffff\"]}''
      then Some [''rgb(102,126,234)'', ''#ffffff'']
      else if v = ''{\"type\":\"gradient\",\"direction\":\"to right\",\"colors\":[\"#667eea\",\"#ffffff\"]}''
      then Some [''#667eea'', ''#ffffff'']
      else None)"

subsection \<open>Render host: the filter on text nodes\<close>

text \<open>
  The filter tests Unicode code points (its patterns carry the \<^verbatim>\<open>u\<close> flag), so here a
  text is the list of its code points. \<^verbatim>\<open>text.length\<close> counts UTF-16 code units: two for
  a code point above \<^verbatim>\<open>U+FFFF\<close>.
\<close>

type_synonym utext = "nat list"

definition codes :: "string \<Rightarrow> utext" where
  "codes s = map of_char s"

definition utf16_length :: "utext \<Rightarrow> nat" where
  "utf16_length t = sum_list (map (\<lambda>cp. if cp > 0xFFFF then 2 else 1) t)"

text \<open>White space and line terminators: what \<^verbatim>\<open>trim\<close> removes and \<^verbatim>\<open>\s\<close> matches.\<close>

definition is_js_space :: "nat \<Rightarrow> bool" where
  "is_js_space cp =
     (cp \<in> set [0x09, 0x0A, 0x0B, 0x0C, 0x0D, 0x20, 0xA0, 0x1680, 0x2028, 0x2029, 0x202F,
                0x205F, 0x3000, 0xFEFF]
      \<or> (0x2000 \<le> cp \<and> cp \<le> 0x200A))"

definition utrim :: "utext \<Rightarrow> utext" where
  "utrim t = rev (dropWhile is_js_space (rev (dropWhile is_js_space t)))"

text \<open>The six ranges of the pattern \<^verbatim>\<open>isEmoji\<close> and of the last pattern of the filter.\<close>

definition in_emoji_ranges :: "nat \<Rightarrow> bool" where
  "in_emoji_ranges cp =
     ((0x1F600 \<le> cp \<and> cp \<le> 0x1F64F) \<or> (0x1F300 \<le> cp \<and> cp \<le> 0x1F5FF)
      \<or> (0x1F680 \<le> cp \<and> cp \<le> 0x1F6FF) \<or> (0x1F1E0 \<le> cp \<and> cp \<le> 0x1F1FF)
      \<or> (0x2600 \<le> cp \<and> cp \<le> 0x26FF) \<or> (0x2700 \<le> cp \<and> cp \<le> 0x27BF))"

definition is_alnum :: "nat \<Rightarrow> bool" where
  "is_alnum cp = ((97 \<le> cp \<and> cp \<le> 122) \<or> (65 \<le> cp \<and> cp \<le> 90) \<or> (48 \<le> cp \<and> cp \<le> 57))"

fun starts_with :: "'a list \<Rightarrow> 'a list \<Rightarrow> bool" where
  "starts_with xs [] = True"
| "starts_with [] (y # ys) = False"
| "starts_with (x # xs) (y # ys) = (x = y \<and> starts_with xs ys)"

definition ends_with :: "'a list \<Rightarrow> 'a list \<Rightarrow> bool" where
  "ends_with xs ys = starts_with (rev xs) (rev ys)"

fun includes_str :: "'a list \<Rightarrow> 'a list \<Rightarrow> bool" where
  "includes_str [] ys = (ys = [])"
| "includes_str (x # xs) ys = (starts_with (x # xs) ys \<or> includes_str xs ys)"

text \<open>Lower case, on code points: the letters A to Z, and the Kelvin sign, the one other
  character whose lower case is an ASCII letter.\<close>

definition lower_cp :: "nat \<Rightarrow> nat" where
  "lower_cp cp = (if 65 \<le> cp \<and> cp \<le> 90 then cp + 32 else if cp = 0x212A then 107 else cp)"

text \<open>Equality under the \<^verbatim>\<open>i\<close> flag of a pattern without the \<^verbatim>\<open>u\<close> flag: a character
  outside ASCII is never folded onto an ASCII one.\<close>

definition fold_case :: "nat \<Rightarrow> nat" where
  "fold_case cp = (if 65 \<le> cp \<and> cp \<le> 90 then cp + 32 else cp)"

text \<open>The test of the \<^verbatim>\<open>forEach\<close> over the text nodes: the node is removed when it holds.\<close>

definition removes_text_node :: "utext \<Rightarrow> bool" where
  "removes_text_node textContent_of_node =
     (let t = utrim textContent_of_node;
          isEmoji = (\<exists>cp \<in> set t. in_emoji_ranges cp)
      in \<not> isEmoji \<and> utf16_length t < 50 \<and>
         (includes_str t (codes ''<'')
          \<or> includes_str t (codes ''html'')
          \<or> includes_str t (codes ''<!'')
          \<or> includes_str t (codes ''/>'')
          \<or> includes_str t (codes ''&lt;'')
          \<or> includes_str t (codes ''&gt;'')
          \<or> t = []
          \<or> t = codes ''html''
          \<or> t = codes ''HTML''
          \<or> map lower_cp t = codes ''html''
          \<or> includes_str t (codes ''...html'')
          \<or> includes_str t (codes ''html...'')
          \<or> (starts_with t (codes ''...'') \<and> includes_str t (codes ''html''))
          \<or> (ends_with t (codes ''...'') \<and> includes_str t (codes ''html''))
          \<or> list_all (\<lambda>cp. cp \<in> set (codes ''<>/'') \<or> is_js_space cp) t
          \<or> map fold_case t = codes ''html''
          \<or> map fold_case t = codes ''...html''
          \<or> map fold_case t = codes ''html...''
          \<or> list_all is_js_space t
          \<or> list_all (\<lambda>cp. \<not> is_alnum cp \<and> \<not> in_emoji_ranges cp) t))"

text \<open>The text nodes that stay.\<close>

definition strip_text_nodes :: "utext list \<Rightarrow> utext list" where
  "strip_text_nodes ts = filter (\<lambda>t. \<not> removes_text_node t) ts"

subsection \<open>Gradient codec: the colour patterns\<close>

text \<open>
  The part of JavaScript's regular expressions the four colour patterns use: literal
  characters, character classes, sequence, the greedy \<^verbatim>\<open>?\<close>, and the greedy \<^verbatim>\<open>*\<close> and
  \<^verbatim>\<open>+\<close> on a class. Groups only bracket (the code reads \<^verbatim>\<open>match[0]\<close>, the whole match).
  \<open>matches_at r s\<close> lists, in the order in which a backtracking matcher tries them, what is
  left of \<open>s\<close> after each way of matching \<open>r\<close> at its start.
\<close>

datatype re = Eps | Lit char | Cls "char list" | Seq re re | Opt re | Star "char list" | Plus "char list"

fun star_rest :: "char list \<Rightarrow> string \<Rightarrow> string list" where
  "star_rest cs [] = [[]]"
| "star_rest cs (x # xs) = (if x \<in> set cs then star_rest cs xs @ [x # xs] else [x # xs])"

fun matches_at :: "re \<Rightarrow> string \<Rightarrow> string list" where
  "matches_at Eps s = [s]"
| "matches_at (Lit c) s = (case s of [] \<Rightarrow> [] | x # xs \<Rightarrow> if x = c then [xs] else [])"
| "matches_at (Cls cs) s = (case s of [] \<Rightarrow> [] | x # xs \<Rightarrow> if x \<in> set cs then [xs] else [])"
| "matches_at (Seq a b) s = concat (map (matches_at b) (matches_at a s))"
| "matches_at (Opt a) s = matches_at a s @ [s]"
| "matches_at (Star cs) s = star_rest cs s"
| "matches_at (Plus cs) s =
     (case s of [] \<Rightarrow> [] | x # xs \<Rightarrow> if x \<in> set cs then star_rest cs xs else [])"

text \<open>The length of the match the matcher finds at the start of \<open>s\<close>, if there is one.\<close>

definition match_here :: "re \<Rightarrow> string \<Rightarrow> nat option" where
  "match_here r s = (case matches_at r s of [] \<Rightarrow> None | rest # _ \<Rightarrow> Some (length s - length rest))"

text \<open>
  \<^verbatim>\<open>Array.from(s.matchAll(r))\<close> mapped to \<^verbatim>\<open>match[0]\<close>, for a pattern with the
  \<^verbatim>\<open>g\<close> flag: the search goes from left to right and starts again where the last match
  ended (one character further after an empty match). \<open>skip\<close> counts the characters still
  covered by the last match.
\<close>

fun matchAll_from :: "re \<Rightarrow> nat \<Rightarrow> string \<Rightarrow> string list" where
  "matchAll_from r skip [] =
     (if skip = 0 \<and> matches_at r [] \<noteq> [] then [[]] else [])"
| "matchAll_from r skip (c # cs) =
     (if skip > 0 then matchAll_from r (skip - 1) cs
      else (case match_here r (c # cs) of
              None \<Rightarrow> matchAll_from r 0 cs
            | Some n \<Rightarrow> take n (c # cs) # matchAll_from r (n - 1) cs))"

definition matchAll :: "re \<Rightarrow> string \<Rightarrow> string list" where
  "matchAll r s = matchAll_from r 0 s"

fun seqs :: "re list \<Rightarrow> re" where
  "seqs [] = Eps"
| "seqs (r # rs) = Seq r (seqs rs)"

definition lits :: "string \<Rightarrow> re list" where
  "lits s = map Lit s"

text \<open>The classes \<^verbatim>\<open>\s\<close> (among the characters a \<^typ>\<open>string\<close> can hold), \<^verbatim>\<open>\d\<close>,
  \<^verbatim>\<open>[\d.]\<close> and \<^verbatim>\<open>[0-9a-fA-F]\<close>.\<close>

definition space_class :: "char list" where
  "space_class = [CHR 0x09, CHR 0x0A, CHR 0x0B, CHR 0x0C, CHR 0x0D, CHR '' '', CHR 0xA0]"

definition digit_class :: "char list" where
  "digit_class = ''0123456789''"

definition digit_dot_class :: "char list" where
  "digit_dot_class = ''0123456789.''"

definition hex_class :: "char list" where
  "hex_class = ''0123456789abcdefABCDEF''"

text \<open>\<^verbatim>\<open>/rgba?\(\s*(\d+)\s*,\s*(\d+)\s*,\s*(\d+)\s*(?:,\s*([\d.]+))?\s*\)/g\<close>\<close>

definition rgb_pattern :: re where
  "rgb_pattern = seqs (lits ''rgb'' @ [Opt (Lit CHR ''a''), Lit CHR ''('',
     Star space_class, Plus digit_class, Star space_class, Lit CHR '','',
     Star space_class, Plus digit_class, Star space_class, Lit CHR '','',
     Star space_class, Plus digit_class, Star space_class,
     Opt (seqs [Lit CHR '','', Star space_class, Plus digit_dot_class]),
     Star space_class, Lit CHR '')''])"

text \<open>\<^verbatim>\<open>/#([0-9a-fA-F]{6})/g\<close> and \<^verbatim>\<open>/#([0-9a-fA-F]{3})/g\<close>\<close>

definition hex6_pattern :: re where
  "hex6_pattern = seqs (Lit CHR ''#'' # replicate 6 (Cls hex_class))"

definition hex3_pattern :: re where
  "hex3_pattern = seqs (Lit CHR ''#'' # replicate 3 (Cls hex_class))"

text \<open>\<^verbatim>\<open>/hsla?\(\s*(\d+)\s*,\s*(\d+)%\s*,\s*(\d+)%\s*(?:,\s*([\d.]+))?\s*\)/g\<close>\<close>

definition hsl_pattern :: re where
  "hsl_pattern = seqs (lits ''hsl'' @ [Opt (Lit CHR ''a''), Lit CHR ''('',
     Star space_class, Plus digit_class, Star space_class, Lit CHR '','',
     Star space_class, Plus digit_class, Lit CHR ''%'', Star space_class, Lit CHR '','',
     Star space_class, Plus digit_class, Lit CHR ''%'', Star space_class,
     Opt (seqs [Lit CHR '','', Star space_class, Plus digit_dot_class]),
     Star space_class, Lit CHR '')''])"

definition patterns :: "re list" where
  "patterns = [rgb_pattern, hex6_pattern, hex3_pattern, hsl_pattern]"

text \<open>The loop over the patterns: the matches of the first pattern that has any.\<close>

fun first_matches :: "re list \<Rightarrow> string \<Rightarrow> string list" where
  "first_matches [] gradientSource = []"
| "first_matches (pattern # rest) gradientSource =
     (let found = matchAll pattern gradientSource
      in if length found > 0 then found else first_matches rest gradientSource)"

definition extractColors :: "string \<Rightarrow> string list" where
  "extractColors gradientSource = first_matches patterns gradientSource"

text \<open>A colour token is written in the notation of a pattern when the pattern matches it
  from its first character to its last.\<close>

definition in_notation :: "re \<Rightarrow> string \<Rightarrow> bool" where
  "in_notation r t = ([] \<in> set (matches_at r t))"

text \<open>The characters a number's text is made of.\<close>

definition number_chars :: "char list" where
  "number_chars = ''0123456789.e+-''"

text \<open>The characters a match of a pattern can contain; a pattern all of whose matches at
  one place leave the same rest; a pattern whose matches start with a given character.\<close>

fun alphabet :: "re \<Rightarrow> char set" where
  "alphabet Eps = {}"
| "alphabet (Lit c) = {c}"
| "alphabet (Cls cs) = set cs"
| "alphabet (Seq a b) = alphabet a \<union> alphabet b"
| "alphabet (Opt a) = alphabet a"
| "alphabet (Star cs) = set cs"
| "alphabet (Plus cs) = set cs"

definition unique_rest :: "re \<Rightarrow> bool" where
  "unique_rest p = (\<forall>s r r'. r \<in> set (matches_at p s) \<longrightarrow> r' \<in> set (matches_at p s) \<longrightarrow> r = r')"

definition first_char :: "char \<Rightarrow> re \<Rightarrow> bool" where
  "first_char c p = (\<forall>s. matches_at p s \<noteq> [] \<longrightarrow> (\<exists>s'. s = c # s'))"

section \<open>Proofs\<close>

subsection \<open>C2: the ledger is last-write-wins\<close>

lemma entries_for_put_same:
  "entries_for (selector n) (property n) (put_edit es n) = [n]"
  by (simp add: entries_for_def put_edit_def filter_empty_conv)

lemma entries_for_put_other:
  "(sel, prop) \<noteq> (selector n, property n) \<Longrightarrow>
   entries_for sel prop (put_edit es n) = entries_for sel prop es"
  by (auto simp add: entries_for_def put_edit_def intro: filter_cong)

lemma entries_for_put_le:
  "length (entries_for sel prop es) \<le> 1 \<Longrightarrow> length (entries_for sel prop (put_edit es n)) \<le> 1"
  by (cases "(sel, prop) = (selector n, property n)")
     (auto simp: entries_for_put_same entries_for_put_other simp del: One_nat_def)

lemma ledger_addStyleEdit_App:
  "currentProjectEditsRef (addStyleEdit_App now cp sel prop v st) =
   put_edit (currentProjectEditsRef st) \<lparr>selector = sel, property = prop, edit_value = v, timestamp = now\<rparr>"
  by (simp add: addStyleEdit_App_def Let_def)

lemma record_all_le:
  "length (entries_for sel prop (currentProjectEditsRef st)) \<le> 1 \<Longrightarrow>
   length (entries_for sel prop (currentProjectEditsRef (record_all calls st))) \<le> 1"
proof (induction calls arbitrary: st)
  case Nil
  then show ?case by simp
next
  case (Cons c calls)
  obtain now cp s p v where c: "c = (now, cp, s, p, v)" by (cases c) auto
  show ?case unfolding c record_all.simps
    by (rule Cons.IH) (use entries_for_put_le [OF Cons.prems] in \<open>simp add: ledger_addStyleEdit_App\<close>)
qed

lemma stored_addStyleEdit_LivePreview:
  "design_id p \<noteq> [] \<Longrightarrow>
   stored_edits (design_id p) (state_of (addStyleEdit_LivePreview css qsa now (Some p) sel prop v st)) =
   put_edit (stored_edits (design_id p) st)
     \<lparr>selector = sel, property = prop, edit_value = v, timestamp = now\<rparr>"
  by (simp add: addStyleEdit_LivePreview_def no_project_id_def stored_edits_def state_of_def Let_def
           split: option.splits sum.splits)

lemma record_all_LivePreview_le:
  assumes "design_id p \<noteq> []"
    and "length (entries_for sel prop (stored_edits (design_id p) st)) \<le> 1"
  shows "length (entries_for sel prop
           (stored_edits (design_id p) (record_all_LivePreview css qsa (Some p) calls st))) \<le> 1"
  using assms(2)
proof (induction calls arbitrary: st)
  case Nil
  then show ?case by simp
next
  case (Cons c calls)
  obtain now s q v where c: "c = (now, s, q, v)" by (cases c) auto
  have "length (entries_for sel prop (stored_edits (design_id p)
          (state_of (addStyleEdit_LivePreview css qsa now (Some p) s q v st)))) \<le> 1"
    using entries_for_put_le [OF Cons.prems]
    by (simp add: stored_addStyleEdit_LivePreview [OF assms(1)])
  then show ?case
    unfolding c record_all_LivePreview.simps by (rule Cons.IH)
qed

text \<open>
  C2. Recording is last-write-wins. After two calls for the same selector and property the
  ledger holds exactly one entry for that pair, the second one, and the entries of every
  other pair are the ones it held before; a ledger that starts empty holds at most one entry
  for each pair after any sequence of calls. This holds for the ledger of \<^verbatim>\<open>App\<close> and
  for the one \<^verbatim>\<open>LivePreview\<close> keeps in \<^verbatim>\<open>localStorage\<close>.
\<close>

theorem ledger_last_write_wins:
  "(let twice = addStyleEdit_App t2 cp2 sel prop v2 (addStyleEdit_App t1 cp1 sel prop v1 st) in
      entries_for sel prop (currentProjectEditsRef twice) =
        [\<lparr>selector = sel, property = prop, edit_value = v2, timestamp = t2\<rparr>]
      \<and> ((sel', prop') \<noteq> (sel, prop) \<longrightarrow>
           entries_for sel' prop' (currentProjectEditsRef twice) =
           entries_for sel' prop' (currentProjectEditsRef st)))
   \<and> (currentProjectEditsRef st = [] \<longrightarrow>
        length (entries_for sel' prop' (currentProjectEditsRef (record_all calls st))) \<le> 1)
   \<and> (design_id p \<noteq> [] \<longrightarrow>
        (let twice = state_of (addStyleEdit_LivePreview css qsa t2 (Some p) sel prop v2
                       (state_of (addStyleEdit_LivePreview css qsa t1 (Some p) sel prop v1 pst))) in
           entries_for sel prop (stored_edits (design_id p) twice) =
             [\<lparr>selector = sel, property = prop, edit_value = v2, timestamp = t2\<rparr>]
           \<and> ((sel', prop') \<noteq> (sel, prop) \<longrightarrow>
                entries_for sel' prop' (stored_edits (design_id p) twice) =
                entries_for sel' prop' (stored_edits (design_id p) pst))))
   \<and> (design_id p \<noteq> [] \<and> stored_edits (design_id p) pst = [] \<longrightarrow>
        length (entries_for sel' prop'
          (stored_edits (design_id p) (record_all_LivePreview css qsa (Some p) pcalls pst))) \<le> 1)"
proof -
  let ?n1 = "\<lparr>selector = sel, property = prop, edit_value = v1, timestamp = t1\<rparr>"
  let ?n2 = "\<lparr>selector = sel, property = prop, edit_value = v2, timestamp = t2\<rparr>"
  have same: "entries_for sel prop (put_edit (put_edit es ?n1) ?n2) = [?n2]" for es
    using entries_for_put_same [of ?n2 "put_edit es ?n1"] by simp
  have other: "entries_for sel' prop' (put_edit (put_edit es ?n1) ?n2) = entries_for sel' prop' es"
    if "(sel', prop') \<noteq> (sel, prop)" for es
    using that entries_for_put_other [of sel' prop' ?n2 "put_edit es ?n1"]
      entries_for_put_other [of sel' prop' ?n1 es] by simp
  have seq: "length (entries_for sel' prop' (currentProjectEditsRef (record_all calls st))) \<le> 1"
    if "currentProjectEditsRef st = []"
    by (rule record_all_le) (simp add: that entries_for_def)
  have pseq: "length (entries_for sel' prop'
          (stored_edits (design_id p) (record_all_LivePreview css qsa (Some p) pcalls pst))) \<le> 1"
    if "design_id p \<noteq> []" "stored_edits (design_id p) pst = []"
    by (rule record_all_LivePreview_le [OF that(1)]) (simp add: that(2) entries_for_def)
  have first: "(let twice = addStyleEdit_App t2 cp2 sel prop v2 (addStyleEdit_App t1 cp1 sel prop v1 st) in
      entries_for sel prop (currentProjectEditsRef twice) = [?n2]
      \<and> ((sel', prop') \<noteq> (sel, prop) \<longrightarrow>
           entries_for sel' prop' (currentProjectEditsRef twice) =
           entries_for sel' prop' (currentProjectEditsRef st)))"
    using same other by (simp add: Let_def ledger_addStyleEdit_App)
  have third: "design_id p \<noteq> [] \<longrightarrow>
        (let twice = state_of (addStyleEdit_LivePreview css qsa t2 (Some p) sel prop v2
                       (state_of (addStyleEdit_LivePreview css qsa t1 (Some p) sel prop v1 pst))) in
           entries_for sel prop (stored_edits (design_id p) twice) = [?n2]
           \<and> ((sel', prop') \<noteq> (sel, prop) \<longrightarrow>
                entries_for sel' prop' (stored_edits (design_id p) twice) =
                entries_for sel' prop' (stored_edits (design_id p) pst)))"
    using same other by (simp add: Let_def stored_addStyleEdit_LivePreview)
  show ?thesis
    using first third seq pseq by blast
qed

theorem ledger_last_write_wins_witness:
  "currentProjectEditsRef app0 = []
   \<and> design_id (project ''p1'') \<noteq> []
   \<and> stored_edits (design_id (project ''p1'')) preview0 = []
   \<and> (''.hero-title'', ''font-size'') \<noteq> (''.hero-title'', ''color'')
   \<and> currentProjectEditsRef
        (addStyleEdit_App 2 None ''.hero-title'' ''color'' ''#00ff00''
          (addStyleEdit_App 1 None ''.hero-title'' ''color'' ''#ff0000'' app0)) =
       [\<lparr>selector = ''.hero-title'', property = ''color'', edit_value = ''#00ff00'', timestamp = 2\<rparr>]
   \<and> length (entries_for ''.hero-title'' ''font-size'' (currentProjectEditsRef
        (record_all [(1, None, ''.hero-title'', ''font-size'', ''12px''),
                     (2, None, ''.hero-title'', ''font-size'', ''14px'')] app0))) \<le> 1
   \<and> stored_edits ''p1''
        (state_of (addStyleEdit_LivePreview any_css (\<lambda>d w s. Inr []) 2 (Some (project ''p1''))
                     ''.hero-title'' ''color'' ''#00ff00''
          (state_of (addStyleEdit_LivePreview any_css (\<lambda>d w s. Inr []) 1 (Some (project ''p1''))
                     ''.hero-title'' ''color'' ''#ff0000'' preview0)))) =
       [\<lparr>selector = ''.hero-title'', property = ''color'', edit_value = ''#00ff00'', timestamp = 2\<rparr>]
   \<and> length (entries_for ''.hero-title'' ''font-size''
        (stored_edits (design_id (project ''p1''))
           (record_all_LivePreview any_css (\<lambda>d w s. Inr []) (Some (project ''p1''))
              [(1, ''.hero-title'', ''font-size'', ''12px''),
               (2, ''.hero-title'', ''font-size'', ''14px'')] preview0))) \<le> 1"
proof -
  have h: "currentProjectEditsRef app0 = []" "design_id (project ''p1'') \<noteq> []"
    "stored_edits (design_id (project ''p1'')) preview0 = []"
    "(''.hero-title'', ''font-size'') \<noteq> (''.hero-title'', ''color'')"
    by (simp_all add: app0_def project_def preview0_def stored_edits_def)
  note th = ledger_last_write_wins [of 2 None "''.hero-title''" "''color''" "''#00ff00''" 1 None
      "''#ff0000''" app0 "''.hero-title''" "''font-size''"
      "[(1, None, ''.hero-title'', ''font-size'', ''12px''),
        (2, None, ''.hero-title'', ''font-size'', ''14px'')]"
      "project ''p1''" any_css "\<lambda>d w s. Inr []" preview0
      "[(1, ''.hero-title'', ''font-size'', ''12px''),
        (2, ''.hero-title'', ''font-size'', ''14px'')]"]
  have a: "currentProjectEditsRef
        (addStyleEdit_App 2 None ''.hero-title'' ''color'' ''#00ff00''
          (addStyleEdit_App 1 None ''.hero-title'' ''color'' ''#ff0000'' app0)) =
       [\<lparr>selector = ''.hero-title'', property = ''color'', edit_value = ''#00ff00'', timestamp = 2\<rparr>]"
    by (simp add: app0_def addStyleEdit_App_def no_project_id_def put_edit_def Let_def)
  have b: "stored_edits ''p1''
        (state_of (addStyleEdit_LivePreview any_css (\<lambda>d w s. Inr []) 2 (Some (project ''p1''))
                     ''.hero-title'' ''color'' ''#00ff00''
          (state_of (addStyleEdit_LivePreview any_css (\<lambda>d w s. Inr []) 1 (Some (project ''p1''))
                     ''.hero-title'' ''color'' ''#ff0000'' preview0)))) =
       [\<lparr>selector = ''.hero-title'', property = ''color'', edit_value = ''#00ff00'', timestamp = 2\<rparr>]"
    by (simp add: preview0_def project_def addStyleEdit_LivePreview_def no_project_id_def
        put_edit_def stored_edits_def state_of_def Let_def)
  show ?thesis
    using h a b th by blast
qed


subsection \<open>The loop over the matches\<close>

lemma isHTMLElement_setProperty [simp]:
  "isHTMLElement (setProperty css p v i e) = isHTMLElement e"
  by (simp add: setProperty_def)

lemma isHTMLElement_setTextContent [simp]:
  "isHTMLElement (setTextContent v r d x) = isHTMLElement (d x)"
  by (simp add: setTextContent_def detach_def Let_def)

lemma isHTMLElement_apply_to_element [simp]:
  "isHTMLElement (apply_to_element css prop v d r x) = isHTMLElement (d x)"
  by (simp add: apply_to_element_def)

lemma isHTMLElement_foldl_apply_to_element [simp]:
  "isHTMLElement (foldl (apply_to_element css prop v) d rs x) = isHTMLElement (d x)"
  by (induction rs arbitrary: d) simp_all




lemma setProperty_rejected:
  "v \<noteq> [] \<Longrightarrow> \<not> css (css_name p) v \<Longrightarrow> setProperty css p v i e = e"
  by (simp add: setProperty_def)



lemma setTextContent_detaches:
  "c \<in> set (children (d r)) \<Longrightarrow> c \<noteq> r \<Longrightarrow> parentElement (setTextContent v r d c) = None"
  by (simp add: setTextContent_def detach_def Let_def)





lemma foldl_apply_style_not_html:
  "prop \<noteq> ''textContent'' \<Longrightarrow> \<not> isHTMLElement (d r) \<Longrightarrow>
   foldl (apply_to_element css prop v) d rs r = d r"
proof (induction rs arbitrary: d)
  case Nil
  then show ?case by simp
next
  case (Cons a rs)
  have "\<not> isHTMLElement (apply_to_element css prop v d a r)"
    using Cons.prems(2) by simp
  then have "foldl (apply_to_element css prop v) (apply_to_element css prop v d a) rs r
      = apply_to_element css prop v d a r"
    using Cons.prems(1) Cons.IH [of "apply_to_element css prop v d a"] by blast
  moreover have "apply_to_element css prop v d a r = d r"
    using Cons.prems by (auto simp: apply_to_element_def)
  ultimately show ?case by simp
qed


subsection \<open>C10: without a project the call does nothing\<close>

text \<open>
  C10. When no current project identifier is available (no project, or an empty id),
  \<^verbatim>\<open>addStyleEdit\<close> of \<^verbatim>\<open>LivePreview\<close> returns at once: no ledger entry is made,
  nothing is written to \<^verbatim>\<open>localStorage\<close> and no rendered node is touched; the state it
  returns is the state it was given.
\<close>

theorem addStyleEdit_LivePreview_no_project:
  "no_project_id currentProject \<Longrightarrow>
   addStyleEdit_LivePreview css qsa now currentProject sel prop v st = Returns st"
  by (simp add: addStyleEdit_LivePreview_def)

theorem addStyleEdit_LivePreview_no_project_witness:
  "no_project_id None \<and> no_project_id (Some (project []))
   \<and> addStyleEdit_LivePreview any_css icon_query 7 None ''.icon'' ''color'' ''red'' icon_preview
       = Returns icon_preview
   \<and> addStyleEdit_LivePreview any_css icon_query 7 (Some (project [])) ''.icon'' ''color'' ''red''
        icon_preview
       = Returns icon_preview"
  using addStyleEdit_LivePreview_no_project [of None any_css icon_query 7 "''.icon''" "''color''" "''red''" icon_preview]
    addStyleEdit_LivePreview_no_project [of "Some (project [])" any_css icon_query 7 "''.icon''" "''color''" "''red''" icon_preview]
  by (simp add: no_project_id_def project_def)

subsection \<open>C9: a recorded edit is applied to every matching HTML element\<close>




text \<open>Assigning the text removes the children of the node from it: after the edit above the
  title of the card has no parent, and its own text is what it was.\<close>

lemma text_edit_detaches_children:
  "parentElement (nodes card_preview 2) = Some 1
   \<and> parentElement (nodes (state_of (addStyleEdit_LivePreview any_css card_query 7
        (Some (project ''p1'')) ''.card'' ''textContent'' ''Sold out'' card_preview)) 2) = None
   \<and> textContent (nodes (state_of (addStyleEdit_LivePreview any_css card_query 7
        (Some (project ''p1'')) ''.card'' ''textContent'' ''Sold out'' card_preview)) 2) = ''Title''"
  by (simp add: card_query_def card_preview_def card_tree_def blank_def project_def
        addStyleEdit_LivePreview_def no_project_id_def state_of_def Let_def
        apply_to_element_def setTextContent_def detach_def)

subsection \<open>The replay loops\<close>



lemma isHTMLElement_apply_saved_edit [simp]:
  "isHTMLElement (apply_saved_edit css c e d r x) = isHTMLElement (d x)"
  by (auto simp: apply_saved_edit_def Let_def split: option.splits)







subsection \<open>C7: replay passes over the entries that match nothing\<close>




text \<open>
  What the statement leaves open: a selector the engine rejects. A node whose class is
  \<^verbatim>\<open>md:flex\<close> gets the selector \<^verbatim>\<open>.md:flex\<close> when an edit of it is recorded, and
  the engine rejects that text with a \<^verbatim>\<open>SyntaxError\<close>. The loop of \<^verbatim>\<open>LivePreview\<close>
  calls \<^verbatim>\<open>querySelectorAll\<close> outside any \<^verbatim>\<open>try\<close>: the exception ends it and the
  entries after it are not applied. \<^verbatim>\<open>applyStyleEdits\<close> wraps the same call in
  \<^verbatim>\<open>try\<close> and goes on.
\<close>

lemma replay_stops_at_rejected_selector:
  "generateSelectorForElement ((\<lambda>_. blank)(1 := blank\<lparr>className := ClassString ''md:flex''\<rparr>)) 1
     = Inr ''.md:flex''
   \<and> strict_query icon_tree 0 ''.md:flex'' = Inl SyntaxError
   \<and> replay_edits any_css strict_query 0
        [mk_edit ''.md:flex'' ''color'' ''red'', mk_edit ''.icon'' ''color'' ''blue''] icon_tree
      = Throws SyntaxError icon_tree
   \<and> style (applyStyleEdits any_css strict_query (Some 0) 0
               [mk_edit ''.md:flex'' ''color'' ''red'', mk_edit ''.icon'' ''color'' ''blue'']
               icon_tree 2) ''color''
      = Some (''blue'', True)"
proof -
  have sel: "generateSelectorForElement
      ((\<lambda>_. blank)(1 := blank\<lparr>className := ClassString ''md:flex''\<rparr>)) 1 = Inr ''.md:flex''"
    by (simp add: generateSelectorForElement_def class_tokens_def blank_def trim_def is_space_def
        Let_def)
  have q: "strict_query icon_tree 0 ''.md:flex'' = Inl SyntaxError"
    by (simp add: strict_query_def)
  have r: "replay_edits any_css strict_query 0
        [mk_edit ''.md:flex'' ''color'' ''red'', mk_edit ''.icon'' ''color'' ''blue''] icon_tree
      = Throws SyntaxError icon_tree"
    by (simp add: strict_query_def mk_edit_def)
  have a: "style (applyStyleEdits any_css strict_query (Some 0) 0
               [mk_edit ''.md:flex'' ''color'' ''red'', mk_edit ''.icon'' ''color'' ''blue'']
               icon_tree 2) ''color''
      = Some (''blue'', True)"
    by (simp add: strict_query_def icon_query_def mk_edit_def icon_tree_def blank_def
        applyStyleEdits_def apply_step_def editKey_def apply_saved_edit_def set_applying_def
        clear_applying_def setProperty_def css_name_def any_css_def toLowerCase_def
        lower_char_def)
  show ?thesis
    using sel q r a by simp
qed

subsection \<open>C1: the two selector computations\<close>

lemma split_sp_first:
  "\<exists>ts. split_sp s = takeWhile (\<lambda>c. c \<noteq> CHR '' '') s # ts"
  by (induction s) auto

lemma join_nonempty:
  "xs \<noteq> [] \<Longrightarrow> \<forall>x \<in> set xs. x \<noteq> [] \<Longrightarrow> join sep xs \<noteq> []"
  by (induction sep xs rule: join.induct) auto

lemma class_tokens_nonempty:
  "\<forall>t \<in> set (class_tokens s). t \<noteq> []"
  by (auto simp: class_tokens_def trim_def)

lemma class_tokens_string:
  "class_tokens s \<noteq> [] \<Longrightarrow> s \<noteq> []"
  by (auto simp: class_tokens_def trim_def)

lemma indexOf_mem:
  "x \<in> set xs \<Longrightarrow>
   0 \<le> indexOf xs x \<and> nat (indexOf xs x) < length xs \<and> xs ! nat (indexOf xs x) = x
   \<and> (\<forall>j < nat (indexOf xs x). xs ! j \<noteq> x)"
proof (induction xs)
  case Nil
  then show ?case by simp
next
  case (Cons y ys)
  show ?case
  proof (cases "y = x")
    case True
    then show ?thesis by simp
  next
    case False
    then have IH: "0 \<le> indexOf ys x" "nat (indexOf ys x) < length ys"
      "ys ! nat (indexOf ys x) = x" "\<forall>j < nat (indexOf ys x). ys ! j \<noteq> x"
      using Cons by auto
    have idx: "indexOf (y # ys) x = indexOf ys x + 1"
      using False IH(1) by (simp add: Let_def)
    have n: "nat (indexOf ys x + 1) = Suc (nat (indexOf ys x))"
      using IH(1) by simp
    show ?thesis
      unfolding idx n using IH False
      by (auto simp: nth_Cons split: nat.splits)
  qed
qed

lemma int_str_succ:
  "0 \<le> i \<Longrightarrow> int_str (i + 1) = nat_str (nat i + 1)"
  by (simp add: int_str_def nat_add_distrib)

text \<open>
  The claim gives one computation: the id, else the first class token, else the tag with its
  position. The code has two, and neither is that one. On the page below, node 2 has the
  classes \<^verbatim>\<open>btn primary\<close> and \<^verbatim>\<open>generateSelectorForElement\<close> joins both; node 3 is
  the second of three paragraphs without id or class and \<^verbatim>\<open>getElementSelector\<close> gives
  the bare tag; node 5 is an SVG element of class \<^verbatim>\<open>logo\<close>, whose \<^verbatim>\<open>className\<close> is
  not a string, and \<^verbatim>\<open>getElementSelector\<close>, which tests the type, gives its tag.
\<close>

theorem selector_joins_all_classes:
  "elem_id (page_tree 2) = [] \<and> className (page_tree 2) = ClassString ''btn primary''
   \<and> generateSelectorForElement page_tree 2 = Inr ''.btn.primary''
   \<and> elem_id (page_tree 3) = [] \<and> className (page_tree 3) = ClassString []
   \<and> parentElement (page_tree 3) = Some 0
   \<and> same_tag_siblings page_tree 0 3 = [2, 3, 4]
   \<and> getElementSelector (page_tree 3) = ''p''
   \<and> elem_id (page_tree 5) = [] \<and> className (page_tree 5) = SVGAnimatedString ''logo''
   \<and> getElementSelector (page_tree 5) = ''svg''"
  by (simp add: generateSelectorForElement_def getElementSelector_def page_tree_def blank_def
      class_tokens_def trim_def is_space_def toLowerCase_def lower_char_def
      same_tag_siblings_def Let_def)

text \<open>
  C1, as the code has it. Both computations return \<^verbatim>\<open>#id\<close> for a node with an id,
  whatever its classes. Without an id, \<^verbatim>\<open>getElementSelector\<close> returns a dot and the text
  of the class string up to its first space when \<^verbatim>\<open>className\<close> is a string that is not
  empty, and the lower-case tag otherwise, that is for an empty class string and for a
  \<^verbatim>\<open>className\<close> that is not a string. For a node whose \<^verbatim>\<open>className\<close> is a string,
  \<^verbatim>\<open>generateSelectorForElement\<close> returns a dot and all the class tokens that are not
  blank, joined by dots, when there is one, otherwise \<^verbatim>\<open>tag:nth-of-type(k)\<close> with \<open>k\<close>
  the 1-based position of the node among the children of its parent that have its tag, and
  the lower-case tag alone for a node without a parent.
\<close>

theorem selector_priority:
  "(elem_id (d r) \<noteq> [] \<longrightarrow>
      getElementSelector (d r) = ''#'' @ elem_id (d r)
      \<and> generateSelectorForElement d r = Inr (''#'' @ elem_id (d r)))
   \<and> (elem_id (d r) = [] \<and> className (d r) = ClassString s \<and> s \<noteq> [] \<longrightarrow>
      getElementSelector (d r) = ''.'' @ takeWhile (\<lambda>c. c \<noteq> CHR '' '') s)
   \<and> (elem_id (d r) = [] \<and> (className (d r) = ClassString [] \<or> className (d r) = SVGAnimatedString a) \<longrightarrow>
      getElementSelector (d r) = toLowerCase (tagName (d r)))
   \<and> (elem_id (d r) = [] \<and> className (d r) = ClassString s \<and> class_tokens s \<noteq> [] \<longrightarrow>
      generateSelectorForElement d r = Inr (''.'' @ join ''.'' (class_tokens s)))
   \<and> (elem_id (d r) = [] \<and> className (d r) = ClassString s \<and> class_tokens s = []
        \<and> parentElement (d r) = Some parent \<and> r \<in> set (children (d parent)) \<longrightarrow>
      (\<exists>k. 1 \<le> k \<and> k \<le> length (same_tag_siblings d parent r)
           \<and> same_tag_siblings d parent r ! (k - 1) = r
           \<and> (\<forall>j < k - 1. same_tag_siblings d parent r ! j \<noteq> r)
           \<and> generateSelectorForElement d r
               = Inr (toLowerCase (tagName (d r)) @ '':nth-of-type('' @ nat_str k @ '')'')))
   \<and> (elem_id (d r) = [] \<and> className (d r) = ClassString s \<and> class_tokens s = []
        \<and> parentElement (d r) = None \<longrightarrow>
      generateSelectorForElement d r = Inr (toLowerCase (tagName (d r))))"
proof (intro conjI impI)
  assume "elem_id (d r) \<noteq> []"
  then show "getElementSelector (d r) = ''#'' @ elem_id (d r)"
    and "generateSelectorForElement d r = Inr (''#'' @ elem_id (d r))"
    by (simp_all add: getElementSelector_def generateSelectorForElement_def Let_def)
next
  assume h: "elem_id (d r) = [] \<and> className (d r) = ClassString s \<and> s \<noteq> []"
  obtain ts where "split_sp s = takeWhile (\<lambda>c. c \<noteq> CHR '' '') s # ts"
    using split_sp_first by blast
  then show "getElementSelector (d r) = ''.'' @ takeWhile (\<lambda>c. c \<noteq> CHR '' '') s"
    using h by (simp add: getElementSelector_def)
next
  assume "elem_id (d r) = [] \<and> (className (d r) = ClassString [] \<or> className (d r) = SVGAnimatedString a)"
  then show "getElementSelector (d r) = toLowerCase (tagName (d r))"
    by (auto simp add: getElementSelector_def)
next
  assume h: "elem_id (d r) = [] \<and> className (d r) = ClassString s \<and> class_tokens s \<noteq> []"
  then have "join ''.'' (class_tokens s) \<noteq> []" "s \<noteq> []"
    using join_nonempty [OF _ class_tokens_nonempty] class_tokens_string by blast+
  then show "generateSelectorForElement d r = Inr (''.'' @ join ''.'' (class_tokens s))"
    using h by (simp add: generateSelectorForElement_def Let_def)
next
  assume h: "elem_id (d r) = [] \<and> className (d r) = ClassString s \<and> class_tokens s = []
        \<and> parentElement (d r) = Some parent \<and> r \<in> set (children (d parent))"
  let ?sib = "same_tag_siblings d parent r"
  have mem: "r \<in> set ?sib"
    using h by (simp add: same_tag_siblings_def)
  note ix = indexOf_mem [OF mem]
  let ?k = "nat (indexOf ?sib r) + 1"
  have sel: "generateSelectorForElement d r
      = Inr (toLowerCase (tagName (d r)) @ '':nth-of-type('' @ int_str (indexOf ?sib r + 1) @ '')'')"
    using h by (simp add: generateSelectorForElement_def positional_selector_def Let_def
        same_tag_siblings_def)
  have "1 \<le> ?k" "?k \<le> length ?sib" "?sib ! (?k - 1) = r" "\<forall>j < ?k - 1. ?sib ! j \<noteq> r"
    using ix by auto
  moreover have "generateSelectorForElement d r
      = Inr (toLowerCase (tagName (d r)) @ '':nth-of-type('' @ nat_str ?k @ '')'')"
    using sel ix int_str_succ [of "indexOf ?sib r"] by simp
  ultimately show "\<exists>k. 1 \<le> k \<and> k \<le> length ?sib \<and> ?sib ! (k - 1) = r
           \<and> (\<forall>j < k - 1. ?sib ! j \<noteq> r)
           \<and> generateSelectorForElement d r
               = Inr (toLowerCase (tagName (d r)) @ '':nth-of-type('' @ nat_str k @ '')'')"
    by blast
next
  assume "elem_id (d r) = [] \<and> className (d r) = ClassString s \<and> class_tokens s = []
        \<and> parentElement (d r) = None"
  then show "generateSelectorForElement d r = Inr (toLowerCase (tagName (d r)))"
    by (simp add: generateSelectorForElement_def positional_selector_def Let_def)
qed

theorem selector_priority_witness:
  "elem_id (page_tree 1) \<noteq> []
   \<and> getElementSelector (page_tree 1) = ''#title''
   \<and> generateSelectorForElement page_tree 1 = Inr ''#title''
   \<and> elem_id (page_tree 2) = [] \<and> className (page_tree 2) = ClassString ''btn primary''
   \<and> ''btn primary'' \<noteq> [] \<and> class_tokens ''btn primary'' \<noteq> []
   \<and> getElementSelector (page_tree 2) = ''.btn''
   \<and> generateSelectorForElement page_tree 2 = Inr ''.btn.primary''
   \<and> elem_id (page_tree 4) = [] \<and> className (page_tree 4) = ClassString []
   \<and> class_tokens [] = []
   \<and> parentElement (page_tree 4) = Some 0 \<and> 4 \<in> set (children (page_tree 0))
   \<and> getElementSelector (page_tree 4) = ''p''
   \<and> generateSelectorForElement page_tree 4 = Inr ''p:nth-of-type(3)''
   \<and> elem_id (page_tree 0) = [] \<and> className (page_tree 0) = ClassString []
   \<and> parentElement (page_tree 0) = None
   \<and> generateSelectorForElement page_tree 0 = Inr ''div''
   \<and> elem_id (page_tree 5) = [] \<and> className (page_tree 5) = SVGAnimatedString ''logo''
   \<and> getElementSelector (page_tree 5) = ''svg''"
proof -
  have f1: "elem_id (page_tree 1) = ''title''"
    and f2: "elem_id (page_tree 2) = []" "className (page_tree 2) = ClassString ''btn primary''"
      "class_tokens ''btn primary'' = [''btn'', ''primary'']"
    and f4: "elem_id (page_tree 4) = []" "className (page_tree 4) = ClassString []"
      "class_tokens [] = []" "parentElement (page_tree 4) = Some 0"
      "children (page_tree 0) = [1, 2, 3, 4, 5]" "tagName (page_tree 4) = ''P''"
      "same_tag_siblings page_tree 0 4 = [2, 3, 4]"
    and f0: "elem_id (page_tree 0) = []" "className (page_tree 0) = ClassString []"
      "parentElement (page_tree 0) = None" "tagName (page_tree 0) = ''DIV''"
    and f5: "elem_id (page_tree 5) = []" "className (page_tree 5) = SVGAnimatedString ''logo''"
      "tagName (page_tree 5) = ''svg''"
    by (simp_all add: page_tree_def blank_def class_tokens_def trim_def is_space_def
        same_tag_siblings_def)
  have low: "toLowerCase ''P'' = ''p''" "toLowerCase ''DIV'' = ''div''"
    "toLowerCase ''svg'' = ''svg''"
    by (simp_all add: toLowerCase_def lower_char_def)
  note t1 = selector_priority [of page_tree 1 "[]" "[]" 0]
  note t2 = selector_priority [of page_tree 2 "''btn primary''" "[]" 0]
  note t4 = selector_priority [of page_tree 4 "[]" "[]" 0]
  note t0 = selector_priority [of page_tree 0 "[]" "[]" 0]
  note t5 = selector_priority [of page_tree 5 "[]" "''logo''" 0]
  have c1: "getElementSelector (page_tree 1) = ''#title''"
    "generateSelectorForElement page_tree 1 = Inr ''#title''"
    using t1 f1 by simp_all
  have c2: "getElementSelector (page_tree 2) = ''.btn''"
    "generateSelectorForElement page_tree 2 = Inr ''.btn.primary''"
    using t2 f2 by simp_all
  have c4a: "getElementSelector (page_tree 4) = ''p''"
    using t4 f4 low by simp
  obtain k where k: "1 \<le> k" "k \<le> 3" "[2, 3, 4] ! (k - 1) = (4::nat)"
    and g: "generateSelectorForElement page_tree 4 = Inr (''p:nth-of-type('' @ nat_str k @ '')'')"
    using t4 f4 low by auto
  have "k = 3"
    using k by (cases "k = 1"; cases "k = 2"; cases "k = 3") auto
  then have c4b: "generateSelectorForElement page_tree 4 = Inr ''p:nth-of-type(3)''"
    using g by (simp add: nat_str.simps digit_char_def)
  have c0: "generateSelectorForElement page_tree 0 = Inr ''div''"
    using t0 f0 f4(3) low by simp
  have c5: "getElementSelector (page_tree 5) = ''svg''"
    using t5 f5 low by simp
  show ?thesis using f1 f2 f4 f0 f5 c1 c2 c4a c4b c0 c5 by simp
qed

text \<open>
  What the statement leaves open: the class branch of \<^verbatim>\<open>generateSelectorForElement\<close>
  has no test of the type. For an SVG element without an id the call
  \<^verbatim>\<open>className.split\<close> throws a \<^verbatim>\<open>TypeError\<close>, and so does
  \<^verbatim>\<open>handlePropertyChange\<close>, which computes the selector before anything else.
\<close>

lemma generateSelectorForElement_svg:
  "elem_id (d r) = [] \<Longrightarrow> className (d r) = SVGAnimatedString a \<Longrightarrow>
   generateSelectorForElement d r = Inl TypeError"
  by (simp add: generateSelectorForElement_def Let_def)

lemma handlePropertyChange_svg:
  "elem_id (page st r) = [] \<Longrightarrow> className (page st r) = SVGAnimatedString a \<Longrightarrow>
   handlePropertyChange css number_text parse_gradient now currentProject has_addStyleEdit True
     container (Some r) prop v st = Throws TypeError st"
  by (simp add: handlePropertyChange_def generateSelectorForElement_svg)

subsection \<open>C8: the deferred save and the applying flag\<close>

text \<open>Only \<^verbatim>\<open>applyStyleEdits\<close> writes the attribute \<^verbatim>\<open>data-applying-edits\<close>, on the
  surface, and it removes it from the surface before it returns; the edits it applies
  touch text, children and style only.\<close>

lemma attributes_setProperty [simp]:
  "attributes (setProperty css p v i e) = attributes e"
  by (simp add: setProperty_def)

lemma attributes_setTextContent [simp]:
  "attributes (setTextContent v r d x) = attributes (d x)"
  by (simp add: setTextContent_def detach_def Let_def)

lemma attributes_apply_saved_edit [simp]:
  "attributes (apply_saved_edit css c e d r x) = attributes (d x)"
  by (simp add: apply_saved_edit_def Let_def split: option.splits)

lemma attributes_foldl_apply_saved_edit [simp]:
  "attributes (foldl (apply_saved_edit css c e) d rs x) = attributes (d x)"
  by (induction rs arbitrary: d) simp_all

lemma attributes_apply_step:
  "attributes (snd (apply_step css qsa c cE (ap, d) e) x) = attributes (d x)"
  by (simp add: apply_step_def split: sum.splits)

lemma attributes_foldl_apply_step:
  "attributes (snd (foldl (apply_step css qsa c cE) (ap, d) es) x) = attributes (d x)"
proof (induction es arbitrary: ap d)
  case Nil
  then show ?case by simp
next
  case (Cons e es)
  obtain ap' d' where s: "apply_step css qsa c cE (ap, d) e = (ap', d')"
    by (cases "apply_step css qsa c cE (ap, d) e") auto
  have "attributes (d' x) = attributes (d x)"
    using attributes_apply_step [of css qsa c cE ap d e x] s by simp
  then show ?case
    using Cons.IH [of ap' d'] s by simp
qed

lemma applyStyleEdits_leaves_no_flag:
  assumes "\<forall>r. attributes (d r) ''data-applying-edits'' = None"
  shows "attributes (applyStyleEdits css qsa c cE es d x) ''data-applying-edits'' = None"
proof (cases "es = []")
  case True
  then show ?thesis using assms by (simp add: applyStyleEdits_def)
next
  case False
  let ?t = "snd (foldl (apply_step css qsa c cE) ([], set_applying c d) es)"
  have t: "attributes (?t x) = attributes (set_applying c d x)"
    by (rule attributes_foldl_apply_step)
  show ?thesis
  proof (cases c)
    case None
    then show ?thesis
      using False assms t by (simp add: applyStyleEdits_def clear_applying_def set_applying_def)
  next
    case (Some n)
    show ?thesis
    proof (cases "x = n")
      case True
      then show ?thesis
        using False Some by (simp add: applyStyleEdits_def clear_applying_def)
    next
      case neq: False
      have "attributes (set_applying c d x) = attributes (d x)"
        using neq Some by (simp add: set_applying_def)
      then show ?thesis
        using False Some neq assms t by (simp add: applyStyleEdits_def clear_applying_def)
    qed
  qed
qed

lemma page_addStyleEdit_App [simp]:
  "page (addStyleEdit_App now cp sel prop v st) = page st"
  by (simp add: addStyleEdit_App_def Let_def)

lemma page_fire_timer [simp]:
  "page (fire_timer now st) = page st"
  by (simp add: fire_timer_def deferred_save_def saveProjectWithEdits_def
      split: list.splits option.splits)

lemma flag_free_step:
  "flag_free st \<Longrightarrow> flag_free (step css st ev)"
  by (cases ev) (simp_all add: flag_free_def applyStyleEdits_leaves_no_flag)

lemma flag_free_run:
  "flag_free st \<Longrightarrow> flag_free (run css events st)"
  unfolding run_def
  by (induction events arbitrary: st) (simp_all add: flag_free_step)

lemma flag_free_not_applying:
  "flag_free st \<Longrightarrow> \<not> applying_edits st"
  by (simp add: flag_free_def applying_edits_def find_None_iff)

lemma saved_designs_addStyleEdit_App:
  "saved_designs_item (addStyleEdit_App now cp sel prop v st) = saved_designs_item st"
  by (simp add: addStyleEdit_App_def Let_def)



text \<open>
  In such a session the flag is never set when a save callback runs, so the callback always
  saves the ledger as it is then: the record call of the session above is made before the
  replay, its timer fires after it, and the saved design gets the recorded edit.
\<close>

lemma deferred_save_in_session:
  "flag_free st \<Longrightarrow>
   deferred_save now projectId (run css events st)
     = saveProjectWithEdits now projectId (currentProjectEditsRef (run css events st))
         (run css events st)"
  using flag_free_run [of st css events] flag_free_not_applying
  by (simp add: deferred_save_def)

lemma session_saves_after_replay:
  "saved_designs_item (run any_css
      [Record 1 (Some (project ''p1'')) ''.icon'' ''color'' ''red'',
       Replay icon_query (Some 0) 0 [mk_edit ''.icon'' ''color'' ''blue''],
       TimerFires 301] session0)
   = Some [(project ''p1'')\<lparr>edits := Some [\<lparr>selector = ''.icon'', property = ''color'',
                                              edit_value = ''red'', timestamp = 1\<rparr>],
                            design_timestamp := 301\<rparr>]"
proof -
  let ?s1 = "addStyleEdit_App 1 (Some (project ''p1'')) ''.icon'' ''color'' ''red'' session0"
  let ?s2 = "step any_css ?s1 (Replay icon_query (Some 0) 0 [mk_edit ''.icon'' ''color'' ''blue''])"
  have f: "flag_free ?s2"
    by (intro flag_free_step) (simp add: flag_free_def session0_def icon_tree_def blank_def)
  have n: "\<not> applying_edits (?s2\<lparr>timers := []\<rparr>)"
    using flag_free_not_applying [OF f] by (simp add: applying_edits_def)
  have s1: "currentProjectEditsRef ?s1
      = [\<lparr>selector = ''.icon'', property = ''color'', edit_value = ''red'', timestamp = 1\<rparr>]"
    "timers ?s1 = [''p1'']" "saved_designs_item ?s1 = Some [project ''p1'']"
    by (simp_all add: session0_def addStyleEdit_App_def no_project_id_def project_def
        put_edit_def Let_def)
  have s2: "currentProjectEditsRef ?s2 = currentProjectEditsRef ?s1" "timers ?s2 = timers ?s1"
    "saved_designs_item ?s2 = saved_designs_item ?s1"
    by simp_all
  have "saved_designs_item (fire_timer 301 ?s2)
      = Some [(project ''p1'')\<lparr>edits := Some [\<lparr>selector = ''.icon'', property = ''color'',
                                              edit_value = ''red'', timestamp = 1\<rparr>],
                            design_timestamp := 301\<rparr>]"
    using n s1 s2
    by (simp add: fire_timer_def deferred_save_def saveProjectWithEdits_def project_def)
  then show ?thesis
    by (simp add: run_def)
qed

subsection \<open>The colour stops of a gradient\<close>

lemma length_colorStops [simp]:
  "length (colorStops number_text colors) = length colors"
  by (simp add: colorStops_def)

lemma nth_colorStops:
  "i < length colors \<Longrightarrow>
   colorStops number_text colors ! i
     = colors ! i @ '' '' @ number_text (percentage (length colors) i) @ ''%''"
  by (simp add: colorStops_def percentage_text_def nth_enumerate_eq)

text \<open>The positions of the stops: 0 for a single colour, and from 0 to 100 otherwise; for
  up to five colours they are the doubles below.\<close>

lemma round_double_exact:
  "round_double 0 = 0" "round_double 1 = 1" "round_double 100 = 100"
  by code_simp+

lemma percentage_ends:
  "percentage 1 0 = 0"
  "len > 1 \<Longrightarrow> percentage len 0 = 0"
  "len > 1 \<Longrightarrow> percentage len (len - 1) = 100"
  by (simp_all add: percentage_def round_double_exact)

lemma percentage_upto5:
  "map (percentage 2) [0, 1] = [0, 100]"
  "map (percentage 3) [0, 1, 2] = [0, 50, 100]"
  "map (percentage 4) [0, 1, 2, 3]
     = [0, 2345624805922133 / 70368744177664, 2345624805922133 / 35184372088832, 100]"
  "map (percentage 5) [0, 1, 2, 3, 4] = [0, 25, 50, 75, 100]"
  by code_simp+

text \<open>With the texts JavaScript gives these doubles, the stops of one to five colours.\<close>

lemma stops_upto5:
  "colorStops percent_upto5 [a] = [a @ '' 0%'']"
  "colorStops percent_upto5 [a, b] = [a @ '' 0%'', b @ '' 100%'']"
  "colorStops percent_upto5 [a, b, c] = [a @ '' 0%'', b @ '' 50%'', c @ '' 100%'']"
  "colorStops percent_upto5 [a, b, c, d]
     = [a @ '' 0%'', b @ '' 33.33333333333333%'', c @ '' 66.66666666666666%'', d @ '' 100%'']"
  "colorStops percent_upto5 [a, b, c, d, e]
     = [a @ '' 0%'', b @ '' 25%'', c @ '' 50%'', d @ '' 75%'', e @ '' 100%'']"
  using percentage_upto5
  by (simp_all add: colorStops_def percentage_text_def percent_upto5_def eval_nat_numeral
      percentage_def)

lemma newGradient_four:
  "newGradient percent_upto5 [''#111111'', ''#222222'', ''#333333'', ''#444444'']
     = ''linear-gradient(135deg, #111111 0%, #222222 33.33333333333333%, #333333 66.66666666666666%, #444444 100%)''"
  by (simp add: newGradient_def stops_upto5)

subsection \<open>C6: committing an inline edit\<close>

text \<open>The style assignments leave the other fields of the new editor as they are.\<close>

lemma setProperty_fields [simp]:
  "textContent (setProperty css p v i e) = textContent e"
  "children (setProperty css p v i e) = children e"
  "parentElement (setProperty css p v i e) = parentElement e"
  "tagName (setProperty css p v i e) = tagName e"
  "elem_id (setProperty css p v i e) = elem_id e"
  "className (setProperty css p v i e) = className e"
  by (simp_all add: setProperty_def)

lemma foldl_setProperty_fields:
  "textContent (foldl (\<lambda>e (p, v). setProperty css p v i e) e0 ds) = textContent e0
   \<and> children (foldl (\<lambda>e (p, v). setProperty css p v i e) e0 ds) = children e0
   \<and> parentElement (foldl (\<lambda>e (p, v). setProperty css p v i e) e0 ds) = parentElement e0"
  by (induction ds arbitrary: e0) (simp_all add: split_def)

lemma new_editor_fields [simp]:
  "textContent (new_editor css computedStyle original) = original"
  "children (new_editor css computedStyle original) = []"
  "parentElement (new_editor css computedStyle original) = None"
  by (simp_all add: new_editor_def foldl_setProperty_fields blank_def)

text \<open>\<^verbatim>\<open>finishEdit\<close> never touches a ledger, neither the one of \<^verbatim>\<open>App\<close> nor
  \<^verbatim>\<open>localStorage\<close>; on commit the text of the editor becomes the text of the node, on
  cancel the text of the node stays, and in both cases the node is put back in place of the
  editor.\<close>

lemma finishEdit_ledgers:
  "app_state (finishEdit editor element original save ws) = app_state ws
   \<and> localStorage (live (finishEdit editor element original save ws)) = localStorage (live ws)"
  by (simp add: finishEdit_def Let_def)

lemma finishEdit_commit_text:
  assumes "element \<noteq> editor"
    and "textContent (nodes (live ws) element) = original"
  shows "textContent (nodes (live (finishEdit editor element original True ws)) element)
         = textContent (nodes (live ws) editor)"
  using assms
  by (auto simp: finishEdit_def Let_def replaceChild_def setTextContent_def detach_def
        split: option.splits)

lemma finishEdit_cancel_text:
  assumes "element \<noteq> editor"
  shows "textContent (nodes (live (finishEdit editor element original False ws)) element)
         = textContent (nodes (live ws) element)"
  using assms
  by (auto simp: finishEdit_def Let_def replaceChild_def split: option.splits)

lemma finishEdit_puts_back:
  assumes "parentElement (nodes (live ws) editor) = Some parent"
    and "parent \<noteq> editor" and "parent \<noteq> element" and "element \<noteq> editor"
    and "editor \<notin> set (children (nodes (live ws) element))"
  shows "children (nodes (live (finishEdit editor element original save ws)) parent)
         = map (\<lambda>c. if c = editor then element else c) (children (nodes (live ws) parent))
         \<and> parentElement (nodes (live (finishEdit editor element original save ws)) element) = Some parent
         \<and> inlineEdit (finishEdit editor element original save ws) = None"
  using assms
  by (auto simp: finishEdit_def Let_def replaceChild_def setTextContent_def detach_def)

text \<open>
  C6 at a concrete edit. The paragraph \<open>Hello\<close> is opened for inline editing, the user
  types \<open>World\<close> and the editor loses the focus (or Enter is pressed without a modifier):
  the paragraph is back in place with the text \<open>World\<close>, and both ledgers are still
  empty. The claim has an edit against \<^verbatim>\<open>textContent\<close> recorded at this point, as the
  text field of the properties panel does through \<^verbatim>\<open>addStyleEdit\<close>; \<^verbatim>\<open>finishEdit\<close>
  does not call it.
\<close>

theorem inline_edit_commit_records_nothing:
  "(let editing = type_text 9 ''World'' (startInlineEdit css (\<lambda>_. []) 9 1 hello_workspace);
        finished = on_blur 9 1 ''Hello'' editing
    in inlineEdit editing = Some \<lparr>ie_element = 1, originalText = ''Hello'', isEditing = True\<rparr>
       \<and> children (nodes (live editing) 0) = [9]
       \<and> textContent (nodes (live finished) 1) = ''World''
       \<and> children (nodes (live finished) 0) = [1]
       \<and> currentProjectEditsRef (app_state finished) = []
       \<and> localStorage (live finished) = Map.empty
       \<and> on_keydown 9 1 ''Hello''
            \<lparr>key = ''Enter'', shiftKey = False, ctrlKey = False, altKey = False, metaKey = False\<rparr>
            editing = finished)"
  by (simp add: Let_def hello_workspace_def startInlineEdit_def type_text_def on_blur_def
      on_keydown_def finishEdit_def replaceChild_def setTextContent_def detach_def blank_def
      app0_def)

text \<open>The other half of the claim holds: Escape puts the paragraph back as it was and
  records nothing.\<close>

lemma inline_edit_escape_restores:
  "(let editing = type_text 9 ''World'' (startInlineEdit css (\<lambda>_. []) 9 1 hello_workspace);
        finished = on_keydown 9 1 ''Hello''
                 \<lparr>key = ''Escape'', shiftKey = False, ctrlKey = False, altKey = False, metaKey = False\<rparr>
                 editing
    in nodes (live finished) 1 = nodes (live hello_workspace) 1
       \<and> children (nodes (live finished) 0) = [1]
       \<and> app_state finished = app_state hello_workspace
       \<and> localStorage (live finished) = localStorage (live hello_workspace))"
  by (simp add: Let_def hello_workspace_def startInlineEdit_def type_text_def
      on_keydown_def finishEdit_def replaceChild_def blank_def app0_def)

subsection \<open>C4: editing a gradient colour\<close>

lemma generateSelectorForElement_nonempty:
  "generateSelectorForElement d r = Inr sel \<Longrightarrow> tagName (d r) \<noteq> [] \<Longrightarrow> sel \<noteq> []"
  by (auto simp add: generateSelectorForElement_def positional_selector_def Let_def
        toLowerCase_def split: option.splits class_value.splits if_splits)

text \<open>
  C4 at a concrete edit. The panel shows the gradient editor for the field
  \<^verbatim>\<open>backgroundColor\<close> as it does for the field \<^verbatim>\<open>color\<close>, and each of its controls
  calls \<^verbatim>\<open>handlePropertyChange\<close> with the name of the field and the gradient as JSON
  text. The heading \<^verbatim>\<open>.hero-title\<close> is selected and the gradient of its background
  colour field is edited: \<^verbatim>\<open>handlePropertyChange\<close> tests \<^verbatim>\<open>property === 'color'\<close>
  before it looks for a gradient, so this call takes the last branch. It hands the JSON
  text itself to \<^verbatim>\<open>setProperty\<close> as the value of \<^verbatim>\<open>background-color\<close>, which no
  CSS parser accepts, and the node stays as it was; and it records the JSON text against
  \<^verbatim>\<open>background-color\<close>. No gradient string is produced and nothing is recorded on
  \<^verbatim>\<open>background\<close>. The same value on the field \<^verbatim>\<open>color\<close> is encoded and recorded
  as the claim says.
\<close>

theorem background_gradient_is_not_reencoded:
  "parse_example ''{\"type\":\"gradient\",\"direction\":\"to right\",\"colors\":[\"#667eea\",\"#ffffff\"]}''
     = Some [''#667eea'', ''#ffffff'']
   \<and> handlePropertyChange no_brace_css percent_upto5 parse_example 5 None True True (Some 0) (Some 1)
        ''backgroundColor''
        ''{\"type\":\"gradient\",\"direction\":\"to right\",\"colors\":[\"#667eea\",\"#ffffff\"]}''
        gradient_app
      = Returns (gradient_app\<lparr>currentProjectEditsRef :=
          [\<lparr>selector = ''.hero-title'', property = ''background-color'',
            edit_value = ''{\"type\":\"gradient\",\"direction\":\"to right\",\"colors\":[\"#667eea\",\"#ffffff\"]}'',
            timestamp = 5\<rparr>]\<rparr>)
   \<and> currentProjectEditsRef (state_of
        (handlePropertyChange no_brace_css percent_upto5 parse_example 5 None True True (Some 0) (Some 1)
           ''color''
           ''{\"type\":\"gradient\",\"direction\":\"to right\",\"colors\":[\"#667eea\",\"#ffffff\"]}''
           gradient_app))
      = [\<lparr>selector = ''.hero-title'', property = ''background'',
          edit_value = ''linear-gradient(135deg, #667eea 0%, #ffffff 100%)'', timestamp = 5\<rparr>]"
proof -
  let ?v = "''{\"type\":\"gradient\",\"direction\":\"to right\",\"colors\":[\"#667eea\",\"#ffffff\"]}''"
  have p: "parse_example ?v = Some [''#667eea'', ''#ffffff'']"
    by (simp add: parse_example_def)
  have s: "generateSelectorForElement (page gradient_app) 1 = Inr ''.hero-title''"
    by (simp add: generateSelectorForElement_def class_tokens_def gradient_app_def app0_def
        blank_def trim_def is_space_def Let_def)
  have c: "cssProp_of ''backgroundColor'' = ''background-color''"
    by (simp add: cssProp_of_def toLowerCase_def lower_char_def)
  have n: "css_name ''background-color'' = ''background-color''"
    by (simp add: css_name_def toLowerCase_def lower_char_def)
  have r: "setProperty no_brace_css ''background-color'' ?v True e = e" for e
    by (simp add: setProperty_def n no_brace_css_def)
  have g: "newGradient percent_upto5 [''#667eea'', ''#ffffff'']
      = ''linear-gradient(135deg, #667eea 0%, #ffffff 100%)''"
    by (simp add: newGradient_def stops_upto5)
  have cp: "change_property no_brace_css percent_upto5 parse_example 5 None True (Some 0) 1
        ''.hero-title'' ''backgroundColor'' ?v gradient_app
      = gradient_app\<lparr>currentProjectEditsRef :=
          [\<lparr>selector = ''.hero-title'', property = ''background-color'', edit_value = ?v,
            timestamp = 5\<rparr>]\<rparr>"
    by (simp add: change_property_def c r record_if_def addStyleEdit_App_def
        no_project_id_def put_edit_def Let_def gradient_app_def app0_def)
  have a: "handlePropertyChange no_brace_css percent_upto5 parse_example 5 None True True (Some 0)
        (Some 1) ''backgroundColor'' ?v gradient_app
      = Returns (gradient_app\<lparr>currentProjectEditsRef :=
          [\<lparr>selector = ''.hero-title'', property = ''background-color'', edit_value = ?v,
            timestamp = 5\<rparr>]\<rparr>)"
    by (simp only: handlePropertyChange_def option.case if_True s sum.case cp)
  have cq: "currentProjectEditsRef
        (change_property no_brace_css percent_upto5 parse_example 5 None True (Some 0) 1
           ''.hero-title'' ''color'' ?v gradient_app)
      = [\<lparr>selector = ''.hero-title'', property = ''background'',
          edit_value = ''linear-gradient(135deg, #667eea 0%, #ffffff 100%)'', timestamp = 5\<rparr>]"
    by (simp add: change_property_def p g record_if_def addStyleEdit_App_def
        no_project_id_def put_edit_def Let_def gradient_app_def app0_def)
  have b: "currentProjectEditsRef (state_of
        (handlePropertyChange no_brace_css percent_upto5 parse_example 5 None True True (Some 0)
           (Some 1) ''color'' ?v gradient_app))
      = [\<lparr>selector = ''.hero-title'', property = ''background'',
          edit_value = ''linear-gradient(135deg, #667eea 0%, #ffffff 100%)'', timestamp = 5\<rparr>]"
    by (simp only: handlePropertyChange_def option.case if_True s sum.case state_of_def
        outcome.case cq)
  show ?thesis
    using p a b by simp
qed

text \<open>
  In general: every field other than the text, the page background and \<^verbatim>\<open>color\<close> is
  recorded with the value as it was passed, under its CSS name.
\<close>

lemma other_field_records_value_as_passed:
  assumes "prop \<noteq> ''textContent''" and "prop \<noteq> ''pageBackground''" and "prop \<noteq> ''color''"
    and "generateSelectorForElement (page st) element = Inr sel" and "sel \<noteq> []"
  shows "handlePropertyChange css number_text parse_gradient now currentProject True True
           container (Some element) prop v st
         = Returns (addStyleEdit_App now currentProject sel (cssProp_of prop) v
             (st\<lparr>page := (page st)(element :=
                    setProperty css (cssProp_of prop) v True (page st element))\<rparr>))"
  using assms
  by (simp add: handlePropertyChange_def change_property_def record_if_def Let_def)

lemma style_apply_gradient:
  assumes "g \<noteq> []" and "css ''background'' g" and "css ''background-clip'' ''text''"
    and "css ''-webkit-background-clip'' ''text''"
    and "css ''-webkit-text-fill-color'' ''transparent''" and "css ''color'' ''transparent''"
  shows "style (apply_gradient css g e) ''background'' = Some (g, True)
     \<and> style (apply_gradient css g e) ''background-clip'' = Some (''text'', True)
     \<and> style (apply_gradient css g e) ''-webkit-background-clip'' = Some (''text'', True)
     \<and> style (apply_gradient css g e) ''-webkit-text-fill-color'' = Some (''transparent'', True)
     \<and> style (apply_gradient css g e) ''color'' = Some (''transparent'', True)"
proof -
  have n: "css_name ''background'' = ''background''"
    "css_name ''background-clip'' = ''background-clip''"
    "css_name ''-webkit-background-clip'' = ''-webkit-background-clip''"
    "css_name ''-webkit-text-fill-color'' = ''-webkit-text-fill-color''"
    "css_name ''color'' = ''color''"
    "css_name ''--original-background'' = ''--original-background''"
    by (simp_all add: css_name_def toLowerCase_def lower_char_def)
  show ?thesis
    using assms by (simp add: apply_gradient_def setProperty_def n)
qed

text \<open>
  The field \<^verbatim>\<open>color\<close>, for every list of colours. When the colour field of a node
  whose selector can be computed is given a gradient value with the colours \<open>colors\<close>
  (and the panel was passed \<^verbatim>\<open>addStyleEdit\<close> and \<^verbatim>\<open>generateSelectorForElement\<close>, as
  \<^verbatim>\<open>App\<close> does), the string produced is \<^verbatim>\<open>linear-gradient(135deg, \<close>, the stops
  separated by a comma and a space, and a closing parenthesis; there is one stop for each
  colour, and stop \<open>i\<close> is colour \<open>i\<close>, a space, the text of the double
  \<open>(i / (n - 1)) * 100\<close> (of \<open>0\<close> for a single colour) and a percent sign. One edit is
  recorded: the ledger is the old one with the entry for the selector of the node and the
  property \<^verbatim>\<open>background\<close> replaced by the new string. The node gets the six
  \<^verbatim>\<open>setProperty\<close> calls of the gradient branch; no other node changes.
\<close>

lemma color_gradient_is_reencoded:
  assumes "parse_gradient v = Some colors"
    and "generateSelectorForElement (page st) element = Inr sel" and "sel \<noteq> []"
  shows "\<exists>st'. handlePropertyChange css number_text parse_gradient now currentProject True True
                 container (Some element) ''color'' v st = Returns st'
     \<and> (let g = newGradient number_text colors
        in g = ''linear-gradient(135deg, '' @ join '', '' (colorStops number_text colors) @ '')''
           \<and> length (colorStops number_text colors) = length colors
           \<and> (\<forall>i < length colors.
                 colorStops number_text colors ! i
                   = colors ! i @ '' '' @ number_text (percentage (length colors) i) @ ''%'')
           \<and> currentProjectEditsRef st'
               = put_edit (currentProjectEditsRef st)
                   \<lparr>selector = sel, property = ''background'', edit_value = g, timestamp = now\<rparr>
           \<and> entries_for sel ''background'' (currentProjectEditsRef st')
               = [\<lparr>selector = sel, property = ''background'', edit_value = g, timestamp = now\<rparr>]
           \<and> page st' element = apply_gradient css g (page st element)
           \<and> (\<forall>r. r \<noteq> element \<longrightarrow> page st' r = page st r))"
proof -
  let ?g = "newGradient number_text colors"
  let ?e = "\<lparr>selector = sel, property = ''background'', edit_value = ?g, timestamp = now\<rparr>"
  let ?st' = "addStyleEdit_App now currentProject sel ''background'' ?g
                     (st\<lparr>page := (page st)(element := apply_gradient css ?g (page st element))\<rparr>)"
  have ret: "handlePropertyChange css number_text parse_gradient now currentProject True True
                 container (Some element) ''color'' v st = Returns ?st'"
    using assms by (simp add: handlePropertyChange_def change_property_def record_if_def Let_def)
  have led: "currentProjectEditsRef ?st' = put_edit (currentProjectEditsRef st) ?e"
    by (simp add: ledger_addStyleEdit_App)
  have ent: "entries_for sel ''background'' (currentProjectEditsRef ?st') = [?e]"
    unfolding led using entries_for_put_same [of ?e "currentProjectEditsRef st"] by simp
  have pg: "page ?st' = (page st)(element := apply_gradient css ?g (page st element))"
    by simp
  have stops: "\<forall>i < length colors.
                 colorStops number_text colors ! i
                   = colors ! i @ '' '' @ number_text (percentage (length colors) i) @ ''%''"
    by (simp add: nth_colorStops)
  have "let g = newGradient number_text colors
        in g = ''linear-gradient(135deg, '' @ join '', '' (colorStops number_text colors) @ '')''
           \<and> length (colorStops number_text colors) = length colors
           \<and> (\<forall>i < length colors.
                 colorStops number_text colors ! i
                   = colors ! i @ '' '' @ number_text (percentage (length colors) i) @ ''%'')
           \<and> currentProjectEditsRef ?st'
               = put_edit (currentProjectEditsRef st)
                   \<lparr>selector = sel, property = ''background'', edit_value = g, timestamp = now\<rparr>
           \<and> entries_for sel ''background'' (currentProjectEditsRef ?st')
               = [\<lparr>selector = sel, property = ''background'', edit_value = g, timestamp = now\<rparr>]
           \<and> page ?st' element = apply_gradient css g (page st element)
           \<and> (\<forall>r. r \<noteq> element \<longrightarrow> page ?st' r = page st r)"
    unfolding Let_def using led ent stops by (simp add: pg newGradient_def)
  then show ?thesis
    unfolding ret by blast
qed

text \<open>The text field of the same panel records its edit against \<^verbatim>\<open>textContent\<close>.\<close>

lemma panel_text_edit_records:
  assumes "generateSelectorForElement (page st) element = Inr sel" and "sel \<noteq> []"
  shows "currentProjectEditsRef (state_of
           (handlePropertyChange css number_text parse_gradient now currentProject True True
              container (Some element) ''textContent'' v st))
         = put_edit (currentProjectEditsRef st)
             \<lparr>selector = sel, property = ''textContent'', edit_value = v, timestamp = now\<rparr>"
  using assms
  by (simp add: handlePropertyChange_def change_property_def record_if_def state_of_def Let_def
        ledger_addStyleEdit_App)

subsection \<open>C5: the filter on text nodes\<close>

lemma codes_simps:
  "codes ''<'' = [60]" "codes ''html'' = [104, 116, 109, 108]" "codes ''<!'' = [60, 33]"
  "codes ''/>'' = [47, 62]" "codes ''&lt;'' = [38, 108, 116, 59]" "codes ''&gt;'' = [38, 103, 116, 59]"
  "codes ''HTML'' = [72, 84, 77, 76]" "codes ''...html'' = [46, 46, 46, 104, 116, 109, 108]"
  "codes ''html...'' = [104, 116, 109, 108, 46, 46, 46]" "codes ''...'' = [46, 46, 46]"
  "codes ''<>/'' = [60, 62, 47]"
  by (simp_all add: codes_def)

text \<open>
  C5 at a concrete node. The claim has every text node that is a single emoji or
  pictographic character preserved. The test \<^verbatim>\<open>isEmoji\<close> knows six ranges of code points,
  which leave out, among others, the block \<^verbatim>\<open>U+1F900\<close> to \<^verbatim>\<open>U+1F9FF\<close>: a node whose
  text is the thinking face \<^verbatim>\<open>U+1F914\<close> alone is not recognised, is shorter than 50 and
  consists of characters that are neither letters nor digits, and is removed.
\<close>

theorem thinking_face_is_removed:
  "removes_text_node [0x1F914] \<and> strip_text_nodes [[0x1F914]] = []"
  by (simp add: removes_text_node_def strip_text_nodes_def utrim_def is_js_space_def in_emoji_ranges_def
      utf16_length_def codes_simps is_alnum_def Let_def)

text \<open>The rest of the claim holds: the fragment \<^verbatim>\<open>...html\<close> is removed, with or without
  white space around it, and a node that contains a character of the six ranges is kept.\<close>

lemma ellipsis_html_is_removed:
  "removes_text_node (codes ''  ...html '') \<and> removes_text_node (codes ''...html'')"
  by (simp add: removes_text_node_def utrim_def is_js_space_def in_emoji_ranges_def
      utf16_length_def codes_simps codes_def Let_def)

lemma utrim_subset: "set (utrim t) \<subseteq> set t"
  by (auto simp: utrim_def dest!: set_dropWhileD)

lemma in_emoji_ranges_not_space: "in_emoji_ranges cp \<Longrightarrow> \<not> is_js_space cp"
  by (auto simp: in_emoji_ranges_def is_js_space_def)

lemma mem_utrim:
  assumes "cp \<in> set t" and "\<not> is_js_space cp"
  shows "cp \<in> set (utrim t)"
proof -
  have a: "cp \<in> set (dropWhile is_js_space t)"
    using assms by (induction t) auto
  have "x \<in> set xs \<Longrightarrow> \<not> is_js_space x \<Longrightarrow> x \<in> set (dropWhile is_js_space xs)" for x xs
    by (induction xs) auto
  from this [of cp "rev (dropWhile is_js_space t)"] a assms(2)
  show ?thesis by (simp add: utrim_def)
qed

lemma emoji_in_ranges_is_kept:
  "cp \<in> set t \<Longrightarrow> in_emoji_ranges cp \<Longrightarrow> \<not> removes_text_node t"
  using mem_utrim [of cp t] in_emoji_ranges_not_space [of cp]
  by (auto simp: removes_text_node_def Let_def)


subsection \<open>C3: colours out of the encoded gradient\<close>

text \<open>General facts about the matcher: a match is a prefix made of characters of the
  pattern, and it stays a match when text is appended.\<close>

lemma star_rest_iff:
  "r \<in> set (star_rest cs s) \<longleftrightarrow> (\<exists>w. s = w @ r \<and> set w \<subseteq> set cs)"
proof (induction s)
  case Nil
  then show ?case by auto
next
  case (Cons x xs)
  show ?case
  proof
    assume "r \<in> set (star_rest cs (x # xs))"
    then consider "x \<in> set cs" "r \<in> set (star_rest cs xs)" | "r = x # xs"
      by (auto split: if_splits)
    then show "\<exists>w. x # xs = w @ r \<and> set w \<subseteq> set cs"
    proof cases
      case 1
      then obtain w where "xs = w @ r" "set w \<subseteq> set cs" using Cons.IH by blast
      then have "x # xs = (x # w) @ r \<and> set (x # w) \<subseteq> set cs" using 1 by simp
      then show ?thesis by blast
    next
      case 2
      then have "x # xs = [] @ r \<and> set [] \<subseteq> set cs" by simp
      then show ?thesis by blast
    qed
  next
    assume "\<exists>w. x # xs = w @ r \<and> set w \<subseteq> set cs"
    then obtain w where w: "x # xs = w @ r" "set w \<subseteq> set cs" by blast
    show "r \<in> set (star_rest cs (x # xs))"
    proof (cases w)
      case Nil
      then show ?thesis using w by auto
    next
      case (Cons y ys)
      then have "x \<in> set cs" "xs = ys @ r" "set ys \<subseteq> set cs" using w by auto
      then show ?thesis using Cons.IH by auto
    qed
  qed
qed

lemma matches_at_prefix:
  "r \<in> set (matches_at p s) \<Longrightarrow> \<exists>w. s = w @ r \<and> set w \<subseteq> alphabet p"
proof (induction p arbitrary: s r)
  case (Seq a b)
  then obtain q where q: "q \<in> set (matches_at a s)" "r \<in> set (matches_at b q)" by auto
  from Seq.IH(1) [OF q(1)] obtain w1 where w1: "s = w1 @ q" "set w1 \<subseteq> alphabet a" by blast
  from Seq.IH(2) [OF q(2)] obtain w2 where w2: "q = w2 @ r" "set w2 \<subseteq> alphabet b" by blast
  have "s = (w1 @ w2) @ r \<and> set (w1 @ w2) \<subseteq> alphabet (Seq a b)"
    using w1 w2 by auto
  then show ?case by blast
next
  case (Opt a)
  then consider "r \<in> set (matches_at a s)" | "r = s" by auto
  then show ?case
  proof cases
    case 1
    then show ?thesis using Opt.IH by auto
  next
    case 2
    then have "s = [] @ r \<and> set [] \<subseteq> alphabet (Opt a)" by simp
    then show ?thesis by blast
  qed
next
  case (Star cs)
  then show ?case by (simp add: star_rest_iff)
next
  case (Plus cs)
  then obtain x xs where s: "s = x # xs" "x \<in> set cs" "r \<in> set (star_rest cs xs)"
    by (auto split: list.splits if_splits)
  then obtain w where "xs = w @ r" "set w \<subseteq> set cs" by (auto simp: star_rest_iff)
  then have "s = (x # w) @ r \<and> set (x # w) \<subseteq> alphabet (Plus cs)" using s by simp
  then show ?case by blast
next
  case Eps
  then have "s = [] @ r \<and> set [] \<subseteq> alphabet Eps" by simp
  then show ?case by blast
next
  case (Lit c)
  then obtain xs where "s = c # xs" "r = xs" by (auto split: list.splits if_splits)
  then have "s = [c] @ r \<and> set [c] \<subseteq> alphabet (Lit c)" by simp
  then show ?case by blast
next
  case (Cls cs)
  then obtain x xs where "s = x # xs" "r = xs" "x \<in> set cs" by (auto split: list.splits if_splits)
  then have "s = [x] @ r \<and> set [x] \<subseteq> alphabet (Cls cs)" by simp
  then show ?case by blast
qed

lemma matches_at_extend:
  "r \<in> set (matches_at p s) \<Longrightarrow> r @ x \<in> set (matches_at p (s @ x))"
proof (induction p arbitrary: s r)
  case (Seq a b)
  then obtain q where q: "q \<in> set (matches_at a s)" "r \<in> set (matches_at b q)" by auto
  then have "q @ x \<in> set (matches_at a (s @ x))" "r @ x \<in> set (matches_at b (q @ x))"
    using Seq.IH by auto
  then show ?case by auto
next
  case (Opt a)
  then show ?case by auto
next
  case (Star cs)
  then obtain w where "s = w @ r" "set w \<subseteq> set cs" by (auto simp: star_rest_iff)
  then have "s @ x = w @ (r @ x) \<and> set w \<subseteq> set cs" by simp
  then show ?case unfolding matches_at.simps star_rest_iff by blast
next
  case (Plus cs)
  then obtain y ys where s: "s = y # ys" "y \<in> set cs" "r \<in> set (star_rest cs ys)"
    by (auto split: list.splits if_splits)
  then obtain w where "ys = w @ r" "set w \<subseteq> set cs" by (auto simp: star_rest_iff)
  then have "ys @ x = w @ (r @ x) \<and> set w \<subseteq> set cs" by simp
  then have "r @ x \<in> set (star_rest cs (ys @ x))" unfolding star_rest_iff by blast
  then show ?case using s by simp
next
  case Eps
  then show ?case by simp
next
  case (Lit c)
  then obtain xs where "s = c # xs" "r = xs" by (auto split: list.splits if_splits)
  then show ?case by simp
next
  case (Cls cs)
  then obtain y xs where "s = y # xs" "r = xs" "y \<in> set cs" by (auto split: list.splits if_splits)
  then show ?case by simp
qed

lemma matches_at_seqs_append:
  "set (matches_at (seqs (xs @ ys)) s)
     = (\<Union>q \<in> set (matches_at (seqs xs) s). set (matches_at (seqs ys) q))"
  by (induction xs arbitrary: s) auto

lemma alphabet_seqs: "alphabet (seqs xs) = (\<Union>x \<in> set xs. alphabet x)"
  by (induction xs) auto

lemma first_occurrence:
  "u @ c # r = u' @ c # r' \<Longrightarrow> c \<notin> set u \<Longrightarrow> c \<notin> set u' \<Longrightarrow> r = r'"
proof (induction u arbitrary: u')
  case Nil
  then show ?case by (cases u') auto
next
  case (Cons a u)
  then show ?case by (cases u') auto
qed

lemma closing_literal:
  assumes "r \<in> set (matches_at (seqs (body @ [Lit c])) s)" and "c \<notin> alphabet (seqs body)"
  shows "\<exists>u. s = u @ c # r \<and> c \<notin> set u"
proof -
  obtain q where q: "q \<in> set (matches_at (seqs body) s)" "r \<in> set (matches_at (seqs [Lit c]) q)"
    using assms(1) unfolding matches_at_seqs_append by blast
  have "q = c # r"
    using q(2) by (auto split: list.splits if_splits)
  moreover obtain u where "s = u @ q" "set u \<subseteq> alphabet (seqs body)"
    using matches_at_prefix [OF q(1)] by blast
  ultimately have "s = u @ c # r \<and> c \<notin> set u"
    using assms(2) by auto
  then show ?thesis by blast
qed

lemma unique_rest_closing_literal:
  assumes "c \<notin> alphabet (seqs body)"
  shows "unique_rest (seqs (body @ [Lit c]))"
  unfolding unique_rest_def
proof (intro allI impI)
  fix s r r'
  assume "r \<in> set (matches_at (seqs (body @ [Lit c])) s)"
    and "r' \<in> set (matches_at (seqs (body @ [Lit c])) s)"
  then obtain u u' where "s = u @ c # r" "c \<notin> set u" "s = u' @ c # r'" "c \<notin> set u'"
    using closing_literal [OF _ assms] by blast
  then show "r = r'"
    using first_occurrence [of u c r u' r'] by simp
qed

lemma first_char_Seq_Lit: "first_char c (Seq (Lit c) q)"
  by (auto simp: first_char_def split: list.splits if_splits)

lemma unique_rest_rgb: "unique_rest rgb_pattern"
proof -
  let ?body = "lits ''rgb'' @ [Opt (Lit CHR ''a''), Lit CHR ''('',
     Star space_class, Plus digit_class, Star space_class, Lit CHR '','',
     Star space_class, Plus digit_class, Star space_class, Lit CHR '','',
     Star space_class, Plus digit_class, Star space_class,
     Opt (seqs [Lit CHR '','', Star space_class, Plus digit_dot_class]),
     Star space_class]"
  have "rgb_pattern = seqs (?body @ [Lit CHR '')''])"
    by (simp add: rgb_pattern_def)
  moreover have "CHR '')'' \<notin> alphabet (seqs ?body)"
    by (simp add: alphabet_seqs lits_def space_class_def digit_class_def digit_dot_class_def)
  ultimately show ?thesis
    using unique_rest_closing_literal by metis
qed

lemma unique_rest_hsl: "unique_rest hsl_pattern"
proof -
  let ?body = "lits ''hsl'' @ [Opt (Lit CHR ''a''), Lit CHR ''('',
     Star space_class, Plus digit_class, Star space_class, Lit CHR '','',
     Star space_class, Plus digit_class, Lit CHR ''%'', Star space_class, Lit CHR '','',
     Star space_class, Plus digit_class, Lit CHR ''%'', Star space_class,
     Opt (seqs [Lit CHR '','', Star space_class, Plus digit_dot_class]),
     Star space_class]"
  have "hsl_pattern = seqs (?body @ [Lit CHR '')''])"
    by (simp add: hsl_pattern_def)
  moreover have "CHR '')'' \<notin> alphabet (seqs ?body)"
    by (simp add: alphabet_seqs lits_def space_class_def digit_class_def digit_dot_class_def)
  ultimately show ?thesis
    using unique_rest_closing_literal by metis
qed

lemma matches_at_replicate_Cls:
  "r \<in> set (matches_at (seqs (replicate n (Cls cs))) s)
     \<longleftrightarrow> (\<exists>w. s = w @ r \<and> length w = n \<and> set w \<subseteq> set cs)"
proof (induction n arbitrary: s)
  case 0
  then show ?case by auto
next
  case (Suc n)
  show ?case
  proof
    assume "r \<in> set (matches_at (seqs (replicate (Suc n) (Cls cs))) s)"
    then obtain x xs where x: "s = x # xs" "x \<in> set cs"
      "r \<in> set (matches_at (seqs (replicate n (Cls cs))) xs)"
      by (auto split: list.splits if_splits)
    then obtain w where "xs = w @ r" "length w = n" "set w \<subseteq> set cs"
      using Suc.IH by blast
    then have "s = (x # w) @ r \<and> length (x # w) = Suc n \<and> set (x # w) \<subseteq> set cs"
      using x by simp
    then show "\<exists>w. s = w @ r \<and> length w = Suc n \<and> set w \<subseteq> set cs" by blast
  next
    assume "\<exists>w. s = w @ r \<and> length w = Suc n \<and> set w \<subseteq> set cs"
    then obtain w where w: "s = w @ r" "length w = Suc n" "set w \<subseteq> set cs" by blast
    then obtain x w' where "w = x # w'" by (cases w) auto
    then have "s = x # (w' @ r)" "x \<in> set cs" "length w' = n" "set w' \<subseteq> set cs"
      using w by auto
    then show "r \<in> set (matches_at (seqs (replicate (Suc n) (Cls cs))) s)"
      using Suc.IH [of "w' @ r"] by auto
  qed
qed

lemma matches_at_hex:
  "r \<in> set (matches_at (seqs (Lit CHR ''#'' # replicate n (Cls hex_class))) s)
     \<longleftrightarrow> (\<exists>w. s = CHR ''#'' # w @ r \<and> length w = n \<and> set w \<subseteq> set hex_class)"
proof -
  have "r \<in> set (matches_at (seqs (Lit CHR ''#'' # replicate n (Cls hex_class))) s)
     \<longleftrightarrow> (\<exists>xs. s = CHR ''#'' # xs \<and> r \<in> set (matches_at (seqs (replicate n (Cls hex_class))) xs))"
    by (cases s) auto
  then show ?thesis
    unfolding matches_at_replicate_Cls by auto
qed

lemma unique_rest_hex:
  "unique_rest (seqs (Lit CHR ''#'' # replicate n (Cls hex_class)))"
  unfolding unique_rest_def
proof (intro allI impI)
  fix s r r'
  assume "r \<in> set (matches_at (seqs (Lit CHR ''#'' # replicate n (Cls hex_class))) s)"
    and "r' \<in> set (matches_at (seqs (Lit CHR ''#'' # replicate n (Cls hex_class))) s)"
  then obtain w w' where "s = CHR ''#'' # w @ r" "length w = n" "s = CHR ''#'' # w' @ r'"
    "length w' = n"
    unfolding matches_at_hex by blast
  then have "w @ r = w' @ r'" "length w = length w'" by simp_all
  then show "r = r'" by simp
qed

lemma unique_rest_hex6: "unique_rest hex6_pattern"
  unfolding hex6_pattern_def by (rule unique_rest_hex)

lemma unique_rest_hex3: "unique_rest hex3_pattern"
  unfolding hex3_pattern_def by (rule unique_rest_hex)

lemma first_char_patterns:
  "first_char CHR ''r'' rgb_pattern" "first_char CHR ''#'' hex6_pattern"
  "first_char CHR ''#'' hex3_pattern" "first_char CHR ''h'' hsl_pattern"
  by (simp_all add: rgb_pattern_def hex6_pattern_def hex3_pattern_def hsl_pattern_def lits_def
      first_char_Seq_Lit)

lemma match_here_token:
  assumes "unique_rest p" and "in_notation p t"
  shows "match_here p (t @ s) = Some (length t)"
proof -
  have mem: "s \<in> set (matches_at p (t @ s))"
    using matches_at_extend [of "[]" p t s] assms(2) by (simp add: in_notation_def)
  then obtain r rs where rs: "matches_at p (t @ s) = r # rs"
    by (cases "matches_at p (t @ s)") auto
  then have "r \<in> set (matches_at p (t @ s))" by simp
  then have "r = s" using mem assms(1) unfolding unique_rest_def by blast
  then show ?thesis using rs by (simp add: match_here_def)
qed

lemma matchAll_from_skip:
  "matchAll_from p (length w) (w @ s) = matchAll_from p 0 s"
  by (induction w) auto

lemma no_match_other_char:
  assumes "first_char c p" and "x \<noteq> c"
  shows "match_here p (x # s) = None"
proof -
  have "matches_at p (x # s) = []"
  proof (rule ccontr)
    assume "matches_at p (x # s) \<noteq> []"
    then obtain s' where "x # s = c # s'"
      using assms(1) unfolding first_char_def by blast
    then show False using assms(2) by simp
  qed
  then show ?thesis by (simp add: match_here_def)
qed

lemma no_match_empty:
  assumes "first_char c p"
  shows "matches_at p [] = []"
proof (rule ccontr)
  assume "matches_at p [] \<noteq> []"
  then obtain s' where "[] = c # s'"
    using assms unfolding first_char_def by blast
  then show False by simp
qed

lemma dead_junk:
  "first_char c p \<Longrightarrow> c \<notin> set z \<Longrightarrow> matchAll_from p 0 (z @ s) = matchAll_from p 0 s"
  by (induction z) (auto simp: no_match_other_char)

lemma token_step:
  assumes "unique_rest p" and "in_notation p t" and "first_char c p"
  shows "matchAll_from p 0 (t @ s) = t # matchAll_from p 0 s"
proof -
  have "matches_at p t \<noteq> []"
    using assms(2) by (auto simp: in_notation_def)
  then obtain t' where t: "t = c # t'"
    using assms(3) by (auto simp: first_char_def)
  have "match_here p (c # t' @ s) = Some (Suc (length t'))"
    using match_here_token [OF assms(1,2), of s] t by simp
  then have "matchAll_from p 0 (c # t' @ s) = (c # t') # matchAll_from p (length t') (t' @ s)"
    by simp
  then show ?thesis
    unfolding t by (simp add: matchAll_from_skip)
qed

lemma body_scan:
  assumes fc: "first_char c0 q"
    and gap: "c0 \<notin> set (number_chars @ '' %,)'')"
    and pc: "\<forall>i. set (pc i) \<subseteq> set number_chars"
    and tok: "\<forall>t \<in> set cs. \<forall>s. matchAll_from q 0 (t @ CHR '' '' # s) = f t @ matchAll_from q 0 s"
  shows "matchAll_from q 0
           (join '', '' (map (\<lambda>(i, c). c @ '' '' @ pc i @ ''%'') (enumerate k cs)) @ tail)
         = concat (map f cs) @ matchAll_from q 0 tail"
  using tok
proof (induction cs arbitrary: k)
  case Nil
  then show ?case by simp
next
  case (Cons t ts)
  have junk: "c0 \<notin> set (pc k @ ''%'')" "c0 \<notin> set '', ''"
    using gap pc by auto
  have stop: "matchAll_from q 0 (t @ '' '' @ pc k @ ''%'' @ rest)
      = f t @ matchAll_from q 0 rest" for rest
  proof -
    have "matchAll_from q 0 (t @ CHR '' '' # ((pc k @ ''%'') @ rest))
        = f t @ matchAll_from q 0 ((pc k @ ''%'') @ rest)"
      using Cons.prems by simp
    also have "matchAll_from q 0 ((pc k @ ''%'') @ rest) = matchAll_from q 0 rest"
      by (rule dead_junk [OF fc junk(1)])
    finally show ?thesis by simp
  qed
  show ?case
  proof (cases ts)
    case Nil
    then show ?thesis using stop [of tail] by simp
  next
    case (Cons t' ts')
    let ?more = "join '', '' (map (\<lambda>(i, c). c @ '' '' @ pc i @ ''%'') (enumerate (Suc k) ts))"
    have IH: "matchAll_from q 0 (?more @ tail) = concat (map f ts) @ matchAll_from q 0 tail"
      using Cons.IH [of "Suc k"] Cons.prems by simp
    have sep: "matchAll_from q 0 ('', '' @ ?more @ tail) = matchAll_from q 0 (?more @ tail)"
      by (rule dead_junk [OF fc junk(2)])
    have "join '', '' (map (\<lambda>(i, c). c @ '' '' @ pc i @ ''%'') (enumerate k (t # ts))) @ tail
        = t @ '' '' @ pc k @ ''%'' @ ('', '' @ ?more @ tail)"
      using Cons by simp
    then show ?thesis
      using stop [of "'', '' @ ?more @ tail"] sep IH by simp
  qed
qed

lemma percentage_text_chars:
  "\<forall>x. set (number_text x) \<subseteq> set number_chars \<Longrightarrow>
   \<forall>i. set (percentage_text number_text len i) \<subseteq> set number_chars"
  by (simp add: percentage_text_def)

lemma gradient_scan:
  assumes fc: "first_char c0 q"
    and gap: "c0 \<notin> set (number_chars @ '' %,)'')"
    and pre: "\<And>s. matchAll_from q 0 (''linear-gradient(135deg, '' @ s) = matchAll_from q 0 s"
    and nt: "\<forall>x. set (number_text x) \<subseteq> set number_chars"
    and tok: "\<forall>t \<in> set colors. \<forall>s. matchAll_from q 0 (t @ CHR '' '' # s) = f t @ matchAll_from q 0 s"
  shows "matchAll q (newGradient number_text colors) = concat (map f colors)"
proof -
  let ?pc = "percentage_text number_text (length colors)"
  have stops: "colorStops number_text colors
      = map (\<lambda>(i, c). c @ '' '' @ ?pc i @ ''%'') (enumerate 0 colors)"
    by (simp add: colorStops_def)
  have close: "matchAll_from q 0 '')'' = []"
    using dead_junk [OF fc, of "'')''" "[]"] gap no_match_empty [OF fc] by simp
  have "matchAll q (newGradient number_text colors)
      = matchAll_from q 0 (join '', '' (colorStops number_text colors) @ '')'')"
    using pre [of "join '', '' (colorStops number_text colors) @ '')''"]
    by (simp add: matchAll_def newGradient_def)
  also have "\<dots> = concat (map f colors) @ matchAll_from q 0 '')''"
    unfolding stops
    by (rule body_scan [OF fc gap percentage_text_chars [OF nt] tok])
  finally show ?thesis using close by simp
qed

lemma prefix_dead:
  "matchAll_from rgb_pattern 0 (''linear-gradient(135deg, '' @ s) = matchAll_from rgb_pattern 0 s"
  "matchAll_from hex6_pattern 0 (''linear-gradient(135deg, '' @ s) = matchAll_from hex6_pattern 0 s"
  "matchAll_from hex3_pattern 0 (''linear-gradient(135deg, '' @ s) = matchAll_from hex3_pattern 0 s"
  "matchAll_from hsl_pattern 0 (''linear-gradient(135deg, '' @ s) = matchAll_from hsl_pattern 0 s"
proof -
  have r: "match_here rgb_pattern (CHR ''r'' # x # s') = None" if "x \<noteq> CHR ''g''" for x s'
    using that by (simp add: match_here_def rgb_pattern_def lits_def)
  have o: "match_here rgb_pattern (x # s') = None" if "x \<noteq> CHR ''r''" for x s'
    using that first_char_patterns(1) by (rule no_match_other_char [rotated])
  show "matchAll_from rgb_pattern 0 (''linear-gradient(135deg, '' @ s) = matchAll_from rgb_pattern 0 s"
    by (simp add: r o)
  show "matchAll_from hex6_pattern 0 (''linear-gradient(135deg, '' @ s) = matchAll_from hex6_pattern 0 s"
    by (rule dead_junk [OF first_char_patterns(2)]) simp
  show "matchAll_from hex3_pattern 0 (''linear-gradient(135deg, '' @ s) = matchAll_from hex3_pattern 0 s"
    by (rule dead_junk [OF first_char_patterns(3)]) simp
  show "matchAll_from hsl_pattern 0 (''linear-gradient(135deg, '' @ s) = matchAll_from hsl_pattern 0 s"
    by (rule dead_junk [OF first_char_patterns(4)]) simp
qed

lemma own_token:
  assumes "unique_rest p" and "first_char c0 p" and "c0 \<noteq> CHR '' ''" and "in_notation p t"
  shows "matchAll_from p 0 (t @ CHR '' '' # s) = [t] @ matchAll_from p 0 s"
  using token_step [OF assms(1,4,2), of "CHR '' '' # s"] no_match_other_char [OF assms(2), of "CHR '' ''" s]
    assms(3) by simp

lemma junk_token:
  assumes "first_char c0 q" and "c0 \<noteq> CHR '' ''" and "c0 \<notin> set t"
  shows "matchAll_from q 0 (t @ CHR '' '' # s) = [] @ matchAll_from q 0 s"
  using dead_junk [OF assms(1), of "t @ '' ''" s] assms(2,3) by simp

lemma token_chars:
  "in_notation p t \<Longrightarrow> set t \<subseteq> alphabet p"
  using matches_at_prefix [of "[]" p t] by (auto simp: in_notation_def)

lemma alphabet_patterns:
  "CHR ''r'' \<notin> alphabet hex6_pattern" "CHR ''r'' \<notin> alphabet hex3_pattern"
  "CHR ''r'' \<notin> alphabet hsl_pattern" "CHR ''#'' \<notin> alphabet hsl_pattern"
  by (simp_all add: hex6_pattern_def hex3_pattern_def hsl_pattern_def alphabet_seqs lits_def
      hex_class_def space_class_def digit_class_def digit_dot_class_def)

lemma hex3_token_under_hex6:
  assumes "in_notation hex3_pattern t"
  shows "matchAll_from hex6_pattern 0 (t @ CHR '' '' # s) = [] @ matchAll_from hex6_pattern 0 s"
proof -
  have "\<exists>w. t = CHR ''#'' # w @ [] \<and> length w = 3 \<and> set w \<subseteq> set hex_class"
    using assms unfolding in_notation_def hex3_pattern_def by (simp only: matches_at_hex)
  then obtain w where w: "t = CHR ''#'' # w" "length w = 3" "set w \<subseteq> set hex_class"
    by auto
  have none: "matches_at hex6_pattern (CHR ''#'' # w @ CHR '' '' # s) = []"
  proof (rule ccontr)
    assume "matches_at hex6_pattern (CHR ''#'' # w @ CHR '' '' # s) \<noteq> []"
    then obtain r where "r \<in> set (matches_at hex6_pattern (CHR ''#'' # w @ CHR '' '' # s))"
      by (cases "matches_at hex6_pattern (CHR ''#'' # w @ CHR '' '' # s)") auto
    then obtain v where v: "CHR ''#'' # w @ CHR '' '' # s = CHR ''#'' # v @ r" "length v = 6"
      "set v \<subseteq> set hex_class"
      unfolding hex6_pattern_def matches_at_hex by blast
    then have eq: "w @ CHR '' '' # s = v @ r" by simp
    have "(v @ r) ! 3 = v ! 3"
      using v(2) by (simp add: nth_append)
    moreover have "(w @ CHR '' '' # s) ! 3 = CHR '' ''"
      using w(2) by (simp add: nth_append)
    ultimately have "v ! 3 = CHR '' ''"
      using eq by simp
    moreover have "v ! 3 \<in> set hex_class"
      using v(2,3) by (simp add: subset_iff)
    ultimately show False by (simp add: hex_class_def)
  qed
  have "CHR ''#'' \<notin> set (w @ '' '')"
    using w(3) by (auto simp: hex_class_def)
  then have "matchAll_from hex6_pattern 0 ((w @ '' '') @ s) = matchAll_from hex6_pattern 0 s"
    by (rule dead_junk [OF first_char_patterns(2)])
  then show ?thesis
    unfolding w(1) using none by (simp add: match_here_def)
qed

lemma gap_chars:
  "CHR ''r'' \<notin> set (number_chars @ '' %,)'')" "CHR ''#'' \<notin> set (number_chars @ '' %,)'')"
  "CHR ''h'' \<notin> set (number_chars @ '' %,)'')"
  by (simp_all add: number_chars_def)

lemma scan_own:
  assumes "unique_rest p" and "first_char c0 p" and "c0 \<noteq> CHR '' ''"
    and "c0 \<notin> set (number_chars @ '' %,)'')"
    and "\<And>s. matchAll_from p 0 (''linear-gradient(135deg, '' @ s) = matchAll_from p 0 s"
    and "\<forall>x. set (number_text x) \<subseteq> set number_chars"
    and "\<forall>t \<in> set colors. in_notation p t"
  shows "matchAll p (newGradient number_text colors) = colors"
proof -
  have "\<forall>t \<in> set colors. \<forall>s. matchAll_from p 0 (t @ CHR '' '' # s) = [t] @ matchAll_from p 0 s"
    using own_token [OF assms(1,2,3)] assms(7) by blast
  from gradient_scan [OF assms(2) assms(4) assms(5) assms(6) this]
  show ?thesis by simp
qed

lemma scan_other:
  assumes "first_char c0 q"
    and "c0 \<notin> set (number_chars @ '' %,)'')"
    and "\<And>s. matchAll_from q 0 (''linear-gradient(135deg, '' @ s) = matchAll_from q 0 s"
    and "\<forall>x. set (number_text x) \<subseteq> set number_chars"
    and "\<forall>t \<in> set colors. \<forall>s. matchAll_from q 0 (t @ CHR '' '' # s) = [] @ matchAll_from q 0 s"
  shows "matchAll q (newGradient number_text colors) = []"
  using gradient_scan [OF assms(1) assms(2) assms(3) assms(4) assms(5)] by simp

lemma junk_tokens:
  assumes "first_char c0 q" and "c0 \<noteq> CHR '' ''" and "c0 \<notin> alphabet p"
    and "\<forall>t \<in> set colors. in_notation p t"
  shows "\<forall>t \<in> set colors. \<forall>s. matchAll_from q 0 (t @ CHR '' '' # s) = [] @ matchAll_from q 0 s"
proof (intro ballI allI)
  fix t s
  assume "t \<in> set colors"
  then have "c0 \<notin> set t"
    using token_chars [of p t] assms(3,4) by auto
  then show "matchAll_from q 0 (t @ CHR '' '' # s) = [] @ matchAll_from q 0 s"
    by (rule junk_token [OF assms(1,2)])
qed

text \<open>
  The claim counts hex as one notation. The code has one pattern for six hex digits and one
  for three and takes the matches of the first pattern that has any: of the two hex colours
  \<^verbatim>\<open>#ffffff\<close> and \<^verbatim>\<open>#fff\<close> only the first comes back.
\<close>

theorem first_pattern_wins:
  "in_notation hex6_pattern ''#ffffff'' \<and> in_notation hex3_pattern ''#fff''
   \<and> newGradient percent_upto5 [''#ffffff'', ''#fff'']
     = ''linear-gradient(135deg, #ffffff 0%, #fff 100%)''
   \<and> extractColors (newGradient percent_upto5 [''#ffffff'', ''#fff'']) = [''#ffffff'']"
proof -
  have n: "in_notation hex6_pattern ''#ffffff''" "in_notation hex3_pattern ''#fff''"
    by code_simp+
  have g: "newGradient percent_upto5 [''#ffffff'', ''#fff'']
      = ''linear-gradient(135deg, #ffffff 0%, #fff 100%)''"
    by (simp add: newGradient_def stops_upto5)
  have e: "extractColors ''linear-gradient(135deg, #ffffff 0%, #fff 100%)'' = [''#ffffff'']"
    by code_simp
  show ?thesis
    using n g e by simp
qed

text \<open>
  C3, as the code has it. Take any list of colour tokens, of any length, all written in the
  notation of one of the four patterns of the code: \<^verbatim>\<open>rgb\<close>/\<^verbatim>\<open>rgba\<close> tuples, six-digit
  hex, three-digit hex, \<^verbatim>\<open>hsl\<close>/\<^verbatim>\<open>hsla\<close> tuples. If the text of a number consists of
  digits, the point, \<^verbatim>\<open>e\<close> and signs, then extracting the colours from the encoded gradient
  string gives back the list, in the same order and of the same length.
\<close>

theorem gradient_roundtrip:
  assumes nt: "\<forall>x. set (number_text x) \<subseteq> set number_chars"
    and p: "p \<in> set patterns"
    and toks: "\<forall>t \<in> set colors. in_notation p t"
  shows "extractColors (newGradient number_text colors) = colors"
proof -
  note fc = first_char_patterns
  have rgb_none: "matchAll rgb_pattern (newGradient number_text colors) = []"
    if "CHR ''r'' \<notin> alphabet p"
    by (rule scan_other [OF fc(1) gap_chars(1) prefix_dead(1) nt])
       (rule junk_tokens [OF fc(1) _ that toks], simp)
  have hex6_none: "matchAll hex6_pattern (newGradient number_text colors) = []"
    if "CHR ''#'' \<notin> alphabet p"
    by (rule scan_other [OF fc(2) gap_chars(2) prefix_dead(2) nt])
       (rule junk_tokens [OF fc(2) _ that toks], simp)
  have hex3_none: "matchAll hex3_pattern (newGradient number_text colors) = []"
    if "CHR ''#'' \<notin> alphabet p"
    by (rule scan_other [OF fc(3) gap_chars(2) prefix_dead(3) nt])
       (rule junk_tokens [OF fc(3) _ that toks], simp)
  consider "p = rgb_pattern" | "p = hex6_pattern" | "p = hex3_pattern" | "p = hsl_pattern"
    using p by (auto simp: patterns_def)
  then show ?thesis
  proof cases
    case 1
    have "matchAll rgb_pattern (newGradient number_text colors) = colors"
      using toks unfolding 1
      by (intro scan_own [OF unique_rest_rgb fc(1) _ gap_chars(1) prefix_dead(1) nt]) simp_all
    moreover have "first_matches [hex6_pattern, hex3_pattern, hsl_pattern]
        (newGradient number_text []) = []"
      by (simp add: newGradient_def colorStops_def) code_simp
    ultimately show ?thesis
      by (cases colors) (simp_all add: extractColors_def patterns_def Let_def)
  next
    case 2
    have "matchAll hex6_pattern (newGradient number_text colors) = colors"
      using toks unfolding 2
      by (intro scan_own [OF unique_rest_hex6 fc(2) _ gap_chars(2) prefix_dead(2) nt]) simp_all
    moreover have "first_matches [hex3_pattern, hsl_pattern] (newGradient number_text []) = []"
      by (simp add: newGradient_def colorStops_def) code_simp
    ultimately show ?thesis
      using rgb_none alphabet_patterns(1) unfolding 2
      by (cases colors) (simp_all add: extractColors_def patterns_def Let_def)
  next
    case 3
    have "matchAll hex3_pattern (newGradient number_text colors) = colors"
      using toks unfolding 3
      by (intro scan_own [OF unique_rest_hex3 fc(3) _ gap_chars(2) prefix_dead(3) nt]) simp_all
    moreover have "matchAll hex6_pattern (newGradient number_text colors) = []"
      by (rule scan_other [OF fc(2) gap_chars(2) prefix_dead(2) nt])
         (use toks hex3_token_under_hex6 in \<open>unfold 3, blast\<close>)
    moreover have "first_matches [hsl_pattern] (newGradient number_text []) = []"
      by (simp add: newGradient_def colorStops_def) code_simp
    ultimately show ?thesis
      using rgb_none alphabet_patterns(2) unfolding 3
      by (cases colors) (simp_all add: extractColors_def patterns_def Let_def)
  next
    case 4
    have "matchAll hsl_pattern (newGradient number_text colors) = colors"
      using toks unfolding 4
      by (intro scan_own [OF unique_rest_hsl fc(4) _ gap_chars(3) prefix_dead(4) nt]) simp_all
    then show ?thesis
      using rgb_none hex6_none hex3_none alphabet_patterns(3,4) unfolding 4
      by (cases colors) (simp_all add: extractColors_def patterns_def Let_def)
  qed
qed

theorem gradient_roundtrip_witness:
  "(\<forall>x. set (percent_upto5 x) \<subseteq> set number_chars)
   \<and> rgb_pattern \<in> set patterns \<and> hex3_pattern \<in> set patterns \<and> hsl_pattern \<in> set patterns
   \<and> in_notation rgb_pattern ''rgb(102,126,234)''
   \<and> in_notation rgb_pattern ''rgba(118, 75, 162, 0.5)''
   \<and> in_notation hex3_pattern ''#fff'' \<and> in_notation hex3_pattern ''#0a0''
   \<and> in_notation hex3_pattern ''#abc'' \<and> in_notation hex3_pattern ''#DEF''
   \<and> in_notation hex3_pattern ''#123''
   \<and> in_notation hsl_pattern ''hsl(210, 50%, 40%)''
   \<and> extractColors (newGradient percent_upto5 [''rgb(102,126,234)'', ''rgba(118, 75, 162, 0.5)''])
       = [''rgb(102,126,234)'', ''rgba(118, 75, 162, 0.5)'']
   \<and> extractColors (newGradient percent_upto5 [''#fff'', ''#0a0'', ''#abc'', ''#DEF'', ''#123''])
       = [''#fff'', ''#0a0'', ''#abc'', ''#DEF'', ''#123'']
   \<and> extractColors (newGradient percent_upto5 [''hsl(210, 50%, 40%)'']) = [''hsl(210, 50%, 40%)'']"
proof -
  have nt: "\<forall>x. set (percent_upto5 x) \<subseteq> set number_chars"
    by (auto simp add: percent_upto5_def number_chars_def)
  have ps: "rgb_pattern \<in> set patterns" "hex3_pattern \<in> set patterns" "hsl_pattern \<in> set patterns"
    by (simp_all add: patterns_def)
  have a: "in_notation rgb_pattern ''rgb(102,126,234)''"
    "in_notation rgb_pattern ''rgba(118, 75, 162, 0.5)''"
    by code_simp+
  have b: "in_notation hex3_pattern ''#fff''" "in_notation hex3_pattern ''#0a0''"
    "in_notation hex3_pattern ''#abc''" "in_notation hex3_pattern ''#DEF''"
    "in_notation hex3_pattern ''#123''"
    by code_simp+
  have c: "in_notation hsl_pattern ''hsl(210, 50%, 40%)''"
    by code_simp
  have ta: "\<forall>t \<in> set [''rgb(102,126,234)'', ''rgba(118, 75, 162, 0.5)'']. in_notation rgb_pattern t"
    using a by simp
  have tb: "\<forall>t \<in> set [''#fff'', ''#0a0'', ''#abc'', ''#DEF'', ''#123'']. in_notation hex3_pattern t"
    using b by simp
  have tc: "\<forall>t \<in> set [''hsl(210, 50%, 40%)'']. in_notation hsl_pattern t"
    using c by simp
  show ?thesis
    using nt ps a b c gradient_roundtrip [OF nt ps(1) ta] gradient_roundtrip [OF nt ps(2) tb]
      gradient_roundtrip [OF nt ps(3) tc]
    by blast
qed

end
